theory Spec2Isabelle
  imports Complex_Main "HOL-Library.AList"
begin

section \<open>JavaScript numbers\<close>

text \<open>
  The services compute on JavaScript numbers. The model keeps the finite values exact
  (a \<open>real\<close>; rounding is not modelled and zero has no sign) and adds the three values a
  computation on finite numbers can still produce: the two infinities and NaN, which
  come from a division by zero and from arithmetic on \<open>undefined\<close>. The fields of the
  records below hold finite numbers.
\<close>

datatype number = Num real | Infinity | NegInfinity | NaN

fun js_neg :: "number \<Rightarrow> number" where
  "js_neg (Num a) = Num (- a)"
| "js_neg Infinity = NegInfinity"
| "js_neg NegInfinity = Infinity"
| "js_neg NaN = NaN"

fun js_add :: "number \<Rightarrow> number \<Rightarrow> number" where
  "js_add NaN _ = NaN"
| "js_add _ NaN = NaN"
| "js_add (Num a) (Num b) = Num (a + b)"
| "js_add Infinity NegInfinity = NaN"
| "js_add NegInfinity Infinity = NaN"
| "js_add Infinity _ = Infinity"
| "js_add _ Infinity = Infinity"
| "js_add NegInfinity _ = NegInfinity"
| "js_add _ NegInfinity = NegInfinity"

definition js_sub :: "number \<Rightarrow> number \<Rightarrow> number" where
  "js_sub x y = js_add x (js_neg y)"

text \<open>The sign of a number: \<open>None\<close> for NaN, otherwise -1, 0 or 1.\<close>

fun js_sign :: "number \<Rightarrow> int option" where
  "js_sign (Num a) = Some (if a < 0 then - 1 else if a = 0 then 0 else 1)"
| "js_sign Infinity = Some 1"
| "js_sign NegInfinity = Some (- 1)"
| "js_sign NaN = None"

definition signed_infinity :: "int \<Rightarrow> number" where
  "signed_infinity s = (if s < 0 then NegInfinity else Infinity)"

fun js_mul :: "number \<Rightarrow> number \<Rightarrow> number" where
  "js_mul (Num a) (Num b) = Num (a * b)"
| "js_mul x y =
     (case (js_sign x, js_sign y) of
        (Some s, Some t) \<Rightarrow> if s * t = 0 then NaN else signed_infinity (s * t)
      | _ \<Rightarrow> NaN)"

fun js_div :: "number \<Rightarrow> number \<Rightarrow> number" where
  "js_div (Num a) (Num b) =
     (if b \<noteq> 0 then Num (a / b)
      else if a = 0 then NaN
      else if a < 0 then NegInfinity else Infinity)"
| "js_div NaN _ = NaN"
| "js_div _ NaN = NaN"
| "js_div (Num a) _ = Num 0"
| "js_div x (Num b) =
     (case js_sign x of
        Some s \<Rightarrow> signed_infinity (if b < 0 then - s else s)
      | None \<Rightarrow> NaN)"
| "js_div _ _ = NaN"

fun js_abs :: "number \<Rightarrow> number" where
  "js_abs (Num a) = Num \<bar>a\<bar>"
| "js_abs NaN = NaN"
| "js_abs _ = Infinity"

text \<open>Comparisons: every comparison with NaN is false.\<close>

fun js_lt :: "number \<Rightarrow> number \<Rightarrow> bool" where
  "js_lt NaN _ = False"
| "js_lt _ NaN = False"
| "js_lt (Num a) (Num b) = (a < b)"
| "js_lt _ NegInfinity = False"
| "js_lt NegInfinity _ = True"
| "js_lt Infinity _ = False"
| "js_lt _ Infinity = True"

definition js_gt :: "number \<Rightarrow> number \<Rightarrow> bool" where
  "js_gt x y = js_lt y x"

fun js_le :: "number \<Rightarrow> number \<Rightarrow> bool" where
  "js_le NaN _ = False"
| "js_le _ NaN = False"
| "js_le x y = (\<not> js_lt y x)"

text \<open>Truthiness of a number: 0 and NaN are falsy.\<close>

fun truthy :: "number \<Rightarrow> bool" where
  "truthy (Num a) = (a \<noteq> 0)"
| "truthy NaN = False"
| "truthy _ = True"

section \<open>Dates\<close>

text \<open>
  A \<open>Date\<close> is its time value, the milliseconds since 1 January 1970 UTC, taken to be
  within the range of a \<open>Date\<close>: \<open>TimeClip\<close> is left out. The calendar functions are those of
  the ECMAScript specification. \<open>getMonth\<close> and \<open>setMonth\<close> work in the
  local time of the host, which is a parameter: the offset of local time from UTC at an
  instant (for \<open>LocalTime\<close>) and the offset that belongs to a local time value (for \<open>UTC\<close>),
  both in milliseconds.
\<close>

type_synonym date = int

record host =
  offsetAt :: "date \<Rightarrow> int"
  offsetOfLocal :: "date \<Rightarrow> int"

definition LocalTime :: "host \<Rightarrow> date \<Rightarrow> int" where
  "LocalTime h t = t + offsetAt h t"

definition UTC :: "host \<Rightarrow> int \<Rightarrow> date" where
  "UTC h t = t - offsetOfLocal h t"

definition msPerDay :: int where
  "msPerDay = 86400000"

definition Day :: "date \<Rightarrow> int" where
  "Day t = t div msPerDay"

definition TimeWithinDay :: "date \<Rightarrow> int" where
  "TimeWithinDay t = t mod msPerDay"

definition DaysInYear :: "int \<Rightarrow> int" where
  "DaysInYear y =
     (if y mod 4 \<noteq> 0 then 365
      else if y mod 100 \<noteq> 0 then 366
      else if y mod 400 \<noteq> 0 then 365 else 366)"

definition DayFromYear :: "int \<Rightarrow> int" where
  "DayFromYear y =
     365 * (y - 1970) + (y - 1969) div 4 - (y - 1901) div 100 + (y - 1601) div 400"

text \<open>
  The year of a day number, the \<open>y\<close> with \<open>DayFromYear y \<le> d\<close> and \<open>d < DayFromYear (y + 1)\<close>:
  the estimate from the mean length of a year, moved by one year where it misses.
\<close>

definition YearFromDay :: "int \<Rightarrow> int" where
  "YearFromDay d =
     (let y = 1970 + (d * 400) div 146097
      in if d < DayFromYear y then y - 1
         else if DayFromYear (y + 1) \<le> d then y + 1 else y)"

definition YearFromTime :: "date \<Rightarrow> int" where
  "YearFromTime t = YearFromDay (Day t)"

definition InLeapYear :: "date \<Rightarrow> bool" where
  "InLeapYear t = (DaysInYear (YearFromTime t) = 366)"

definition DayWithinYear :: "date \<Rightarrow> int" where
  "DayWithinYear t = Day t - DayFromYear (YearFromTime t)"

text \<open>The day within the year on which month \<open>m\<close> (0 to 11) starts; 12 gives the year's length.\<close>

definition monthStart :: "bool \<Rightarrow> int \<Rightarrow> int" where
  "monthStart leap m =
     (if m \<le> 0 then 0
      else if m = 1 then 31
      else [59, 90, 120, 151, 181, 212, 243, 273, 304, 334, 365] ! nat (min m 12 - 2)
           + (if leap then 1 else 0))"

definition MonthFromTime :: "date \<Rightarrow> int" where
  "MonthFromTime t =
     (let d = DayWithinYear t; leap = (if InLeapYear t then 1 else 0)
      in if d < 31 then 0
         else if d < 59 + leap then 1
         else if d < 90 + leap then 2
         else if d < 120 + leap then 3
         else if d < 151 + leap then 4
         else if d < 181 + leap then 5
         else if d < 212 + leap then 6
         else if d < 243 + leap then 7
         else if d < 273 + leap then 8
         else if d < 304 + leap then 9
         else if d < 334 + leap then 10
         else 11)"

definition DateFromTime :: "date \<Rightarrow> int" where
  "DateFromTime t = DayWithinYear t - monthStart (InLeapYear t) (MonthFromTime t) + 1"

definition MakeDay :: "int \<Rightarrow> int \<Rightarrow> int \<Rightarrow> int" where
  "MakeDay year month dt =
     (let ym = year + month div 12; mn = month mod 12
      in DayFromYear ym + monthStart (DaysInYear ym = 366) mn + dt - 1)"

definition MakeDate :: "int \<Rightarrow> int \<Rightarrow> date" where
  "MakeDate day time = day * msPerDay + time"

definition getMonth :: "host \<Rightarrow> date \<Rightarrow> int" where
  "getMonth h t = MonthFromTime (LocalTime h t)"

definition setMonth :: "host \<Rightarrow> date \<Rightarrow> int \<Rightarrow> date" where
  "setMonth h t month =
     (let t' = LocalTime h t;
          newDate = MakeDate (MakeDay (YearFromTime t') month (DateFromTime t')) (TimeWithinDay t')
      in UTC h newDate)"

section \<open>Data model\<close>

text \<open>The types of \<open>RentCastTypes.ts\<close> that the services use.\<close>

record characteristics =
  sqft :: real
  bedrooms :: real
  bathrooms :: real
  lotSize :: real
  yearBuilt :: real

record property_characteristics = characteristics +
  propertyType :: string

text \<open>
  \<open>Property\<close>: its field \<open>characteristics\<close> is \<open>subject\<close> here, since a \<open>Comparable\<close>
  has a field of that name too; an optional field is an \<open>option\<close>.
\<close>

record property =
  property_id :: string
  addressLine1 :: string
  addressLine2 :: "string option"
  city :: string
  state :: string
  zipCode :: string
  county :: string
  latitude :: "real option"
  longitude :: "real option"
  parcelNumber :: "string option"
  subject :: property_characteristics
  currentAssessedValue :: "real option"
  assessmentYear :: "real option"
  assessmentDate :: "date option"
  taxAmount :: "real option"
  ownerName :: "string option"

text \<open>
  \<open>Comparable\<close>: \<open>adjustments\<close> is a \<open>Record<string, number>\<close>, an object whose keys are
  kept in the order of their first assignment, so it is an association list.
\<close>

record comparable =
  comparable_id :: string
  address :: string
  salePrice :: real
  saleDate :: date
  distanceMiles :: real
  characteristics :: characteristics
  adjustments :: "(string \<times> real) list"
  adjustedPrice :: real
  source :: string
  sourceId :: string

datatype confidence = high | medium | low

datatype verdict = over_assessed | fair | under_assessed

section \<open>The clock\<close>

text \<open>
  \<open>new Date()\<close> reads the system clock. A run is given the clock as the function from the
  number of readings taken so far to the next reading, and threads that number through.
\<close>

type_synonym clock = "nat \<Rightarrow> date"

definition new_Date :: "clock \<Rightarrow> nat \<Rightarrow> date \<times> nat" where
  "new_Date clk k = (clk k, Suc k)"

section \<open>ComparableService\<close>

subsection \<open>calculateAdjustments and applyAdjustments\<close>

definition calculateAdjustments :: "property \<Rightarrow> comparable \<Rightarrow> (string \<times> real) list" where
  "calculateAdjustments subjectProperty comparable =
     (let adjustments0 = [];
          sizeDiff = sqft (characteristics comparable) - sqft (subject subjectProperty);
          sizeAdjustment = sizeDiff * 150;
          adjustments1 = AList.update ''size'' (- sizeAdjustment) adjustments0;
          bedroomDiff = bedrooms (characteristics comparable) - bedrooms (subject subjectProperty);
          bedroomAdjustment = bedroomDiff * 25000;
          adjustments2 = AList.update ''bedroom'' (- bedroomAdjustment) adjustments1;
          bathroomDiff = bathrooms (characteristics comparable) - bathrooms (subject subjectProperty);
          bathroomAdjustment = bathroomDiff * 15000;
          adjustments3 = AList.update ''bathroom'' (- bathroomAdjustment) adjustments2;
          lotDiff = lotSize (characteristics comparable) - lotSize (subject subjectProperty);
          lotAdjustment = lotDiff * 50000;
          adjustments4 = AList.update ''lotSize'' (- lotAdjustment) adjustments3;
          ageDiff = yearBuilt (characteristics comparable) - yearBuilt (subject subjectProperty);
          ageAdjustment = ageDiff * 1000;
          adjustments5 = AList.update ''age'' (- ageAdjustment) adjustments4
      in adjustments5)"

text \<open>\<open>Object.values\<close> lists the values in key order; \<open>reduce\<close> folds from the left.\<close>

definition Object_values :: "(string \<times> real) list \<Rightarrow> real list" where
  "Object_values obj = map snd obj"

definition applyAdjustments :: "comparable \<Rightarrow> comparable" where
  "applyAdjustments comparable =
     (let totalAdjustment = foldl (\<lambda>sum adj. sum + adj) 0 (Object_values (adjustments comparable))
      in comparable\<lparr>adjustedPrice := salePrice comparable + totalAdjustment\<rparr>)"

subsection \<open>filterComparables\<close>

text \<open>
  The callback of the filter. It returns at the first failed test, and reads the clock
  only when the first five tests have passed.
\<close>

definition filterCallback ::
  "host \<Rightarrow> clock \<Rightarrow> property \<Rightarrow> comparable \<Rightarrow> nat \<Rightarrow> bool \<times> nat" where
  "filterCallback h clk subjectProperty cmp k =
     (let sizeRatio = js_div (Num (sqft (characteristics cmp))) (Num (sqft (subject subjectProperty)))
      in if js_lt sizeRatio (Num 0.8) \<or> js_gt sizeRatio (Num 1.2) then (False, k)
      else let bedroomDiff = \<bar>bedrooms (characteristics cmp) - bedrooms (subject subjectProperty)\<bar>
      in if bedroomDiff > 1 then (False, k)
      else let bathroomDiff = \<bar>bathrooms (characteristics cmp) - bathrooms (subject subjectProperty)\<bar>
      in if bathroomDiff > 1 then (False, k)
      else let lotRatio = js_div (Num (lotSize (characteristics cmp))) (Num (lotSize (subject subjectProperty)))
      in if js_lt lotRatio (Num 0.75) \<or> js_gt lotRatio (Num 1.25) then (False, k)
      else if distanceMiles cmp > 1.0 then (False, k)
      else let (now, k') = new_Date clk k;
               sixMonthsAgo = setMonth h now (getMonth h now - 6)
      in if saleDate cmp < sixMonthsAgo then (False, k') else (True, k'))"

text \<open>\<open>Array.prototype.filter\<close> with a callback that has an effect on the state.\<close>

fun Array_filter :: "('a \<Rightarrow> 's \<Rightarrow> bool \<times> 's) \<Rightarrow> 'a list \<Rightarrow> 's \<Rightarrow> 'a list \<times> 's" where
  "Array_filter f [] s = ([], s)"
| "Array_filter f (x # xs) s =
     (let (b, s') = f x s; (ys, s'') = Array_filter f xs s'
      in (if b then x # ys else ys, s''))"

definition filterComparables ::
  "host \<Rightarrow> clock \<Rightarrow> comparable list \<Rightarrow> property \<Rightarrow> nat \<Rightarrow> comparable list \<times> nat" where
  "filterComparables h clk comparables subjectProperty k =
     Array_filter (filterCallback h clk subjectProperty) comparables k"

text \<open>The cut-off of lines 72 and 73, as a function of the clock's reading.\<close>

definition sixMonthsAgo :: "host \<Rightarrow> date \<Rightarrow> date" where
  "sixMonthsAgo h now = setMonth h now (getMonth h now - 6)"

subsection \<open>calculateMarketValue\<close>

text \<open>
  \<open>Array.prototype.slice\<close>: a negative index counts from the end, and both indices are
  clamped to the array.
\<close>

definition slice :: "'a list \<Rightarrow> int \<Rightarrow> int \<Rightarrow> 'a list" where
  "slice xs start end' =
     (let len = int (length xs);
          k = (if start < 0 then max (len + start) 0 else min start len);
          final = (if end' < 0 then max (len + end') 0 else min end' len)
      in take (nat (final - k)) (drop (nat k) xs))"

text \<open>
  Reading an array of numbers at an index. Out of range the read gives \<open>undefined\<close>, which
  the arithmetic that follows turns into NaN; the model gives NaN at once.
\<close>

definition at_index :: "real list \<Rightarrow> int \<Rightarrow> number" where
  "at_index xs i = (if 0 \<le> i \<and> i < int (length xs) then Num (xs ! nat i) else NaN)"

text \<open>
  The comparator \<open>(a, b) => a - b\<close> orders finite numbers ascending, so the sorted array is
  the ascending arrangement of the prices.
\<close>

definition adjustedPrices :: "comparable list \<Rightarrow> real list" where
  "adjustedPrices comparables = sort (map adjustedPrice comparables)"

definition removeCount :: "comparable list \<Rightarrow> int" where
  "removeCount comparables = \<lfloor>real (length (adjustedPrices comparables)) * 0.2\<rfloor>"

definition trimmedPrices :: "comparable list \<Rightarrow> real list" where
  "trimmedPrices comparables =
     slice (adjustedPrices comparables) (removeCount comparables)
       (int (length (adjustedPrices comparables)) - removeCount comparables)"

definition mid :: "comparable list \<Rightarrow> int" where
  "mid comparables = \<lfloor>real (length (trimmedPrices comparables)) / 2\<rfloor>"

definition calculateMarketValue :: "comparable list \<Rightarrow> number" where
  "calculateMarketValue comparables =
     (if length comparables = 0 then Num 0
      else if length (trimmedPrices comparables) mod 2 = 0
      then js_div (js_add (at_index (trimmedPrices comparables) (mid comparables - 1))
                          (at_index (trimmedPrices comparables) (mid comparables))) (Num 2)
      else at_index (trimmedPrices comparables) (mid comparables))"

subsection \<open>calculateConfidence\<close>

definition calculateConfidence :: "comparable list \<Rightarrow> confidence" where
  "calculateConfidence comparables =
     (let count = length comparables
      in if count \<ge> 5 then high
         else if count \<ge> 3 then medium
         else low)"

subsection \<open>processComparables\<close>

text \<open>
  The object that \<open>processComparables\<close> returns; its fields \<open>comparables\<close>, \<open>marketValue\<close> and
  \<open>confidence\<close> carry the prefix \<open>p_\<close>, and the fields of \<open>PropertyAnalysis\<close> the prefix \<open>pa_\<close>:
  the plain names are the local variables of the methods.
\<close>

record processed =
  p_comparables :: "comparable list"
  p_marketValue :: number
  p_confidence :: confidence

definition processComparables ::
  "host \<Rightarrow> clock \<Rightarrow> comparable list \<Rightarrow> property \<Rightarrow> nat \<Rightarrow> processed \<times> nat" where
  "processComparables h clk rawComparables subjectProperty k =
     (let (filteredComparables, k') = filterComparables h clk rawComparables subjectProperty k;
          filteredComparables' =
            map (\<lambda>cmp. applyAdjustments (cmp\<lparr>adjustments := calculateAdjustments subjectProperty cmp\<rparr>))
              filteredComparables;
          marketValue = calculateMarketValue filteredComparables';
          confidence = calculateConfidence filteredComparables'
      in (\<lparr>p_comparables = filteredComparables', p_marketValue = marketValue,
            p_confidence = confidence\<rparr>, k'))"

section \<open>AnalysisService\<close>

text \<open>
  What \<open>getPropertyValuation\<close> resolves to when it does not resolve to \<open>null\<close>; its fields
  \<open>value\<close>, \<open>confidence\<close>, \<open>propertyType\<close>, \<open>bedrooms\<close> and \<open>bathrooms\<close> carry the prefix \<open>avm_\<close>.
\<close>

record valuation =
  avm_value :: real
  avm_confidence :: confidence
  valuationDate :: string
  avm_propertyType :: string
  avm_bedrooms :: "real option"
  avm_bathrooms :: "real option"
  squareFootage :: "real option"

record confidence_info =
  level :: confidence
  sampleSize :: nat
  lastUpdated :: date

record propertyAnalysis =
  pa_property :: property
  pa_comparables :: "comparable list"
  pa_marketValue :: number
  pa_assessedValue :: real
  pa_difference :: number
  pa_percentageDifference :: number
  pa_taxRate :: real
  pa_annualSavings :: number
  pa_monthlySavings :: number
  pa_confidence :: confidence_info
  pa_verdict :: verdict

text \<open>
  The steps of \<open>analyzeProperty\<close>, numbered as its comments number them. Step 4:
  \<open>avmValue = avmResult?.value || null\<close>, where \<open>avmResult\<close> is \<open>None\<close> when the call resolved to
  \<open>null\<close> or threw. A value of 0 is falsy and becomes \<open>null\<close>.
\<close>

definition step4_avmValue :: "valuation option \<Rightarrow> real option" where
  "step4_avmValue avmResult =
     (case avmResult of
        None \<Rightarrow> None
      | Some r \<Rightarrow> if truthy (Num (avm_value r)) then Some (avm_value r) else None)"

text \<open>Step 5: the test \<open>avmValue && comparables.length < 3\<close> and the blend.\<close>

definition step5_finalMarketValue :: "number \<Rightarrow> real option \<Rightarrow> nat \<Rightarrow> number" where
  "step5_finalMarketValue marketValue avmValue n =
     (case avmValue of
        None \<Rightarrow> marketValue
      | Some v \<Rightarrow>
          if truthy (Num v) \<and> n < 3
          then js_add (js_mul marketValue (Num 0.7)) (js_mul (Num v) (Num 0.3))
          else marketValue)"

text \<open>Step 6: \<open>property.currentAssessedValue || 0\<close>, the difference and its percentage.\<close>

definition step6_assessedValue :: "property \<Rightarrow> real" where
  "step6_assessedValue property =
     (case currentAssessedValue property of
        None \<Rightarrow> 0
      | Some v \<Rightarrow> if truthy (Num v) then v else 0)"

definition step6_difference :: "real \<Rightarrow> number \<Rightarrow> number" where
  "step6_difference assessedValue finalMarketValue = js_sub (Num assessedValue) finalMarketValue"

definition step6_percentageDifference :: "real \<Rightarrow> number \<Rightarrow> number" where
  "step6_percentageDifference assessedValue difference =
     (if assessedValue > 0 then js_mul (js_div difference (Num assessedValue)) (Num 100) else Num 0)"

text \<open>Step 7.\<close>

definition step7_verdict :: "number \<Rightarrow> verdict" where
  "step7_verdict percentageDifference =
     (if js_le (js_abs percentageDifference) (Num 5) then fair
      else if js_gt percentageDifference (Num 5) then over_assessed
      else under_assessed)"

text \<open>Step 8.\<close>

definition step8_taxRate :: real where
  "step8_taxRate = 0.055"

definition step8_annualSavings :: "verdict \<Rightarrow> number \<Rightarrow> number" where
  "step8_annualSavings verdict difference =
     (if verdict = over_assessed then js_mul (js_abs difference) (Num step8_taxRate) else Num 0)"

definition step8_monthlySavings :: "number \<Rightarrow> number" where
  "step8_monthlySavings annualSavings = js_div annualSavings (Num 12)"

text \<open>
  \<open>analyzeProperty\<close> after its three awaited calls: the property that \<open>lookupProperty\<close> found,
  the comparables that \<open>getComparableSales\<close> returned and the result of \<open>getPropertyValuation\<close>
  are parameters. When one of the first two calls throws, the promise is rejected before
  any of this runs.
\<close>

definition analyzeProperty ::
  "host \<Rightarrow> clock \<Rightarrow> property \<Rightarrow> comparable list \<Rightarrow> valuation option \<Rightarrow> nat
     \<Rightarrow> propertyAnalysis \<times> nat" where
  "analyzeProperty h clk property rawComparables avmResult k =
     (let (processed, k1) = processComparables h clk rawComparables property k;
          comparables = p_comparables processed;
          marketValue = p_marketValue processed;
          avmValue = step4_avmValue avmResult;
          finalMarketValue = step5_finalMarketValue marketValue avmValue (length comparables);
          assessedValue = step6_assessedValue property;
          difference = step6_difference assessedValue finalMarketValue;
          percentageDifference = step6_percentageDifference assessedValue difference;
          verdict = step7_verdict percentageDifference;
          annualSavings = step8_annualSavings verdict difference;
          monthlySavings = step8_monthlySavings annualSavings;
          (now, k2) = new_Date clk k1
      in (\<lparr>pa_property = property,
            pa_comparables = comparables,
            pa_marketValue = finalMarketValue,
            pa_assessedValue = assessedValue,
            pa_difference = difference,
            pa_percentageDifference = percentageDifference,
            pa_taxRate = step8_taxRate,
            pa_annualSavings = annualSavings,
            pa_monthlySavings = monthlySavings,
            pa_confidence = \<lparr>level = p_confidence processed,
                            sampleSize = length comparables,
                            lastUpdated = now\<rparr>,
            pa_verdict = verdict\<rparr>, k2))"

section \<open>The specification's words\<close>

subsection \<open>The civil calendar\<close>

text \<open>
  The Gregorian calendar of local civil time, counted in days from 1 January 1970, written
  without reference to the functions above: a year is a leap year when 4 divides it,
  unless 100 divides it and 400 does not; the months (numbered from 0) have their usual
  lengths; and the date of a day is found by walking through the years from 1970,
  forwards or backwards, and then through the months of the year, taking off each one's
  length.
\<close>

definition leap_year :: "int \<Rightarrow> bool" where
  "leap_year y \<longleftrightarrow> y mod 4 = 0 \<and> (y mod 100 \<noteq> 0 \<or> y mod 400 = 0)"

definition year_length :: "int \<Rightarrow> int" where
  "year_length y = (if leap_year y then 366 else 365)"

definition month_length :: "int \<Rightarrow> int \<Rightarrow> int" where
  "month_length y m =
     (if m = 1 then (if leap_year y then 29 else 28)
      else if m = 3 \<or> m = 5 \<or> m = 8 \<or> m = 10 then 30
      else 31)"

function year_walk :: "int \<Rightarrow> int \<Rightarrow> int \<times> int" where
  "year_walk y r =
     (if year_length y \<le> r then year_walk (y + 1) (r - year_length y)
      else if r < 0 then year_walk (y - 1) (r + year_length (y - 1))
      else (y, r))"
  by pat_completeness auto
termination
  by (relation "measure (\<lambda>(y, r). if r < 0 then nat (1 - r) + 400 else nat r)")
    (auto simp: year_length_def split: if_splits)

declare year_walk.simps [simp del]

function month_walk :: "int \<Rightarrow> int \<Rightarrow> int \<Rightarrow> int \<times> int" where
  "month_walk y m r =
     (if m < 11 \<and> month_length y m \<le> r then month_walk y (m + 1) (r - month_length y m)
      else (m, r))"
  by pat_completeness auto
termination
  by (relation "measure (\<lambda>(y, m, r). nat (11 - m))") auto

declare month_walk.simps [simp del]

text \<open>The year, the month (from 0) and the day of the month (from 1) of a day number.\<close>

definition civil_of_day :: "int \<Rightarrow> int \<times> int \<times> int" where
  "civil_of_day day =
     (let (y, r) = year_walk 1970 day; (m, r') = month_walk y 0 r in (y, m, r' + 1))"

text \<open>The other way round: the days of the years between 1970 and a year (negative
  before 1970), the days of the months up to a month, and the day number of a date.\<close>

function days_before_year :: "int \<Rightarrow> int" where
  "days_before_year y =
     (if 1970 < y then days_before_year (y - 1) + year_length (y - 1)
      else if y < 1970 then days_before_year (y + 1) - year_length y
      else 0)"
  by pat_completeness auto
termination
  by (relation "measure (\<lambda>y. nat \<bar>y - 1970\<bar>)") auto

declare days_before_year.simps [simp del]

function days_before_month :: "int \<Rightarrow> int \<Rightarrow> int" where
  "days_before_month y m =
     (if m \<le> 0 then 0 else days_before_month y (m - 1) + month_length y (m - 1))"
  by pat_completeness auto
termination
  by (relation "measure (\<lambda>(y, m). nat m)") auto

declare days_before_month.simps [simp del]

definition day_of_civil :: "int \<Rightarrow> int \<Rightarrow> int \<Rightarrow> int" where
  "day_of_civil y m d = days_before_year y + days_before_month y m + d - 1"

subsection \<open>Six calendar months before today\<close>

text \<open>
  Six calendar months before a local time: the same time of day on the day with the same
  number in the month six months earlier, and on the last day of that month when it has
  no day with that number. \<open>sameDayExists\<close> says that it has one: always so for the days
  up to the 28th.
\<close>

definition sixMonthsEarlier :: "int \<Rightarrow> int \<Rightarrow> int \<times> int" where
  "sixMonthsEarlier y m = ((12 * y + m - 6) div 12, (12 * y + m - 6) mod 12)"

definition sameDayExists :: "int \<Rightarrow> bool" where
  "sameDayExists t =
     (let (y, m, d) = civil_of_day (t div 86400000); (y', m') = sixMonthsEarlier y m
      in d \<le> month_length y' m')"

definition sixCalendarMonthsBeforeLocal :: "int \<Rightarrow> int" where
  "sixCalendarMonthsBeforeLocal t =
     (let (y, m, d) = civil_of_day (t div 86400000); (y', m') = sixMonthsEarlier y m
      in day_of_civil y' m' (min d (month_length y' m')) * 86400000 + t mod 86400000)"

definition sixCalendarMonthsBefore :: "host \<Rightarrow> date \<Rightarrow> date" where
  "sixCalendarMonthsBefore h today = UTC h (sixCalendarMonthsBeforeLocal (LocalTime h today))"

text \<open>The readings of the clock that the filter's theorem covers: those on a day of the
  month, in the host's local time, that exists six months earlier.\<close>

definition covered :: "host \<Rightarrow> date \<Rightarrow> bool" where
  "covered h today \<longleftrightarrow> sameDayExists (LocalTime h today)"

subsection \<open>The ComparableFilter contract\<close>

text \<open>
  The six predicates, for a candidate \<open>c\<close>, a subject \<open>s\<close> and the evaluation instant \<open>today\<close>:
  the five that do not depend on the time, and the recency of the sale.
\<close>

definition firstFive :: "property \<Rightarrow> comparable \<Rightarrow> bool" where
  "firstFive s c \<longleftrightarrow>
     0.8 \<le> sqft (characteristics c) / sqft (subject s) \<and>
     sqft (characteristics c) / sqft (subject s) \<le> 1.2 \<and>
     \<bar>bedrooms (characteristics c) - bedrooms (subject s)\<bar> \<le> 1 \<and>
     \<bar>bathrooms (characteristics c) - bathrooms (subject s)\<bar> \<le> 1 \<and>
     0.75 \<le> lotSize (characteristics c) / lotSize (subject s) \<and>
     lotSize (characteristics c) / lotSize (subject s) \<le> 1.25 \<and>
     distanceMiles c \<le> 1.0"

definition sixPredicates :: "host \<Rightarrow> date \<Rightarrow> property \<Rightarrow> comparable \<Rightarrow> bool" where
  "sixPredicates h today s c \<longleftrightarrow> firstFive s c \<and> saleDate c \<ge> sixCalendarMonthsBefore h today"

text \<open>
  The reading of the clock that is "today" for the candidate at position \<open>i\<close>, in a run that
  starts when the clock has been read \<open>k\<close> times: the clock is read once more for each
  earlier candidate that satisfies the first five predicates.
\<close>

definition todayFor :: "clock \<Rightarrow> nat \<Rightarrow> property \<Rightarrow> comparable list \<Rightarrow> nat \<Rightarrow> date" where
  "todayFor clk k s cs i = clk (k + length (filter (firstFive s) (take i cs)))"

text \<open>The MarketValueAggregator contract: trim \<open>floor (n * 0.2)\<close> prices from each end of the
  ascending prices and take the median of the rest.\<close>

definition removeFromEachEnd :: "nat \<Rightarrow> 'a list \<Rightarrow> 'a list" where
  "removeFromEachEnd r xs = rev (drop r (rev (drop r xs)))"

definition median :: "real list \<Rightarrow> real" where
  "median xs =
     (if even (length xs) then (xs ! (length xs div 2 - 1) + xs ! (length xs div 2)) / 2
      else xs ! (length xs div 2))"

definition MarketValueAggregator :: "real list \<Rightarrow> real" where
  "MarketValueAggregator prices =
     (if prices = [] then 0
      else median (removeFromEachEnd (nat \<lfloor>real (length prices) * 0.2\<rfloor>) (sort prices)))"

text \<open>The order of the confidence tiers: low, then medium, then high.\<close>

fun confidence_rank :: "confidence \<Rightarrow> nat" where
  "confidence_rank low = 0"
| "confidence_rank medium = 1"
| "confidence_rank high = 2"

text \<open>A clock that reads the same instant at every reading, a clock that advances by a
  millisecond at each reading, and two runs that read the same six-month cut-offs.\<close>

definition fixed_clock :: "date \<Rightarrow> clock" where
  "fixed_clock today k = today"

definition ticking_clock :: "date \<Rightarrow> clock" where
  "ticking_clock start k = start + int k"

definition same_cutoffs :: "host \<Rightarrow> clock \<Rightarrow> clock \<Rightarrow> bool" where
  "same_cutoffs h clk1 clk2 \<longleftrightarrow> (\<forall>i. sixMonthsAgo h (clk1 i) = sixMonthsAgo h (clk2 i))"

text \<open>A comparable without the two fields that \<open>processComparables\<close> overwrites.\<close>

definition raw :: "comparable \<Rightarrow> comparable" where
  "raw c = c\<lparr>adjustments := [], adjustedPrice := 0\<rparr>"

section \<open>Example data\<close>

text \<open>
  The subject of the specification's scenario A, and comparables like it in every
  characteristic. The evaluation instant is 2024-08-31T12:34:56.789Z, for which the code's
  cut-off is 2 March 2024 (there is no 31 February); the later one is 2024-10-15T09:00Z.
\<close>

definition example_subject :: property where
  "example_subject =
     \<lparr>property_id = ''p1'', addressLine1 = ''1 Main St'', addressLine2 = None,
      city = ''Denver'', state = ''CO'', zipCode = ''80202'', county = ''Denver'',
      latitude = None, longitude = None, parcelNumber = None,
      subject = \<lparr>sqft = 2000, bedrooms = 3, bathrooms = 2, lotSize = 0.25, yearBuilt = 2010,
                 propertyType = ''Single Family''\<rparr>,
      currentAssessedValue = Some 500000, assessmentYear = Some 2024, assessmentDate = None,
      taxAmount = None, ownerName = None\<rparr>"

definition example_comparable :: "real \<Rightarrow> real \<Rightarrow> date \<Rightarrow> comparable" where
  "example_comparable price miles sold =
     \<lparr>comparable_id = ''c1'', address = ''2 Main St'', salePrice = price, saleDate = sold,
      distanceMiles = miles,
      characteristics = \<lparr>sqft = 2000, bedrooms = 3, bathrooms = 2, lotSize = 0.25, yearBuilt = 2010\<rparr>,
      adjustments = [], adjustedPrice = price, source = ''rentcast'', sourceId = ''1''\<rparr>"

text \<open>A larger, newer comparable within all the thresholds.\<close>

definition example_larger :: "real \<Rightarrow> real \<Rightarrow> date \<Rightarrow> comparable" where
  "example_larger price miles sold =
     \<lparr>comparable_id = ''c2'', address = ''3 Main St'', salePrice = price, saleDate = sold,
      distanceMiles = miles,
      characteristics = \<lparr>sqft = 2200, bedrooms = 4, bathrooms = 2.5, lotSize = 0.3, yearBuilt = 2015\<rparr>,
      adjustments = [], adjustedPrice = price, source = ''rentcast'', sourceId = ''2''\<rparr>"

text \<open>A host whose local time is UTC.\<close>

definition utc :: host where
  "utc = \<lparr>offsetAt = (\<lambda>t. 0), offsetOfLocal = (\<lambda>t. 0)\<rparr>"

definition example_today :: date where
  "example_today = 1725107696789"

definition example_later :: date where
  "example_later = 1728982800000"

definition sold_june :: date where
  "sold_june = 1717200000000"

definition sold_march :: date where
  "sold_march = 1710028800000"

definition sold_january :: date where
  "sold_january = 1705276800000"

text \<open>Sales on 1 March 2024 at 18:00Z, and on 15 April 2024 at 09:00Z, six calendar months to
  the millisecond before the later instant.\<close>

definition sold_march_1 :: date where
  "sold_march_1 = 1709316000000"

definition sold_april_15 :: date where
  "sold_april_15 = 1713171600000"


text \<open>A comparable as a run leaves it: the two overwritten fields hold what the run wrote.\<close>

definition example_processed :: "real \<Rightarrow> real \<Rightarrow> date \<Rightarrow> comparable" where
  "example_processed price miles sold =
     (example_comparable price miles sold)
       \<lparr>adjustments := [(''size'', 0), (''bedroom'', 0), (''bathroom'', 0), (''lotSize'', 0), (''age'', 0)],
        adjustedPrice := price\<rparr>"

text \<open>Two instants of 2025 with one cut-off, 1 March 2025 at noon: 29 August (there is no
  29 February in 2025) and 1 September, both at noon; and a sale on 1 June 2025.\<close>

definition example_aug29 :: date where
  "example_aug29 = 1756468800000"

definition example_sep01 :: date where
  "example_sep01 = 1756728000000"

definition sold_june_2025 :: date where
  "sold_june_2025 = 1748736000000"

section \<open>Lemmas\<close>

subsection \<open>The calendar at the example instants\<close>

lemma cutoff_today: "sixMonthsAgo utc example_today = 1709382896789"
  by code_simp

lemma cutoff_later: "sixMonthsAgo utc example_later = 1713171600000"
  by code_simp

lemma civil_aug31: "civil_of_day 19966 = (2024, 7, 31)"
  by code_simp

lemma civil_oct15: "civil_of_day 20011 = (2024, 9, 15)"
  by code_simp

lemma day_apr15: "day_of_civil 2024 3 15 = 19828"
  by code_simp

text \<open>Six calendar months before 31 August 2024, 12:34:56.789, is 29 February, 12:34:56.789.\<close>

lemma calendar_today: "sixCalendarMonthsBefore utc example_today = 1709210096789"
  by code_simp

text \<open>The later instant and the milliseconds after it are readings that the theorem covers,
  with the cut-off on 15 April 2024.\<close>

lemma covered_later:
  assumes "0 \<le> i" and "i < 1000"
  shows "covered utc (example_later + i)"
    and "sixCalendarMonthsBefore utc (example_later + i) = sold_april_15 + i"
proof -
  have d: "(example_later + i) div 86400000 = 20011"
    using assms by (simp add: example_later_def div_pos_pos_trivial
        int_div_pos_eq [of _ _ 20011 "32400000 + i"])
  have m: "(example_later + i) mod 86400000 = 32400000 + i"
    using assms by (simp add: example_later_def int_mod_pos_eq [of _ _ 20011 "32400000 + i"])
  show "covered utc (example_later + i)"
    using assms
    by (simp add: covered_def sameDayExists_def LocalTime_def utc_def d civil_oct15
          sixMonthsEarlier_def month_length_def)
  show "sixCalendarMonthsBefore utc (example_later + i) = sold_april_15 + i"
    by (simp add: sixCalendarMonthsBefore_def sixCalendarMonthsBeforeLocal_def LocalTime_def
          UTC_def utc_def d m civil_oct15 sixMonthsEarlier_def month_length_def day_apr15
          sold_april_15_def)
qed

lemma cutoff_later_ticks:
  "sixMonthsAgo utc (example_later + 1) = 1713171600001"
  "sixMonthsAgo utc (example_later + 2) = 1713171600002"
  by code_simp+

subsection \<open>The calendar functions against the civil calendar\<close>

lemma div_step:
  fixes a n :: int
  assumes "0 < n"
  shows "(a + 1) div n = a div n + (if (a + 1) mod n = 0 then 1 else 0)"
proof -
  define q r where "q = a div n" and "r = a mod n"
  have a: "a = n * q + r" and r: "0 \<le> r" "r < n"
    using assms by (simp_all add: q_def r_def)
  show ?thesis
  proof (cases "r + 1 < n")
    case True
    have e: "a + 1 = n * q + (r + 1)" using a by simp
    have "(a + 1) div n = q"
      using e by (rule int_div_pos_eq) (use r True in simp_all)
    moreover have "(a + 1) mod n = r + 1"
      using e by (rule int_mod_pos_eq) (use r True in simp_all)
    ultimately show ?thesis using r by (simp add: q_def)
  next
    case False
    with r have rn: "r + 1 = n" by simp
    have e: "a + 1 = n * (q + 1) + 0" using a rn by (simp add: algebra_simps)
    have "(a + 1) div n = q + 1"
      using e by (rule int_div_pos_eq) (use assms in simp_all)
    moreover have "(a + 1) mod n = 0"
      using e by (rule int_mod_pos_eq) (use assms in simp_all)
    ultimately show ?thesis by (simp add: q_def)
  qed
qed

lemma year_length_DaysInYear: "year_length y = DaysInYear y"
  by (simp add: year_length_def leap_year_def DaysInYear_def)

lemma leap_year_DaysInYear: "leap_year y \<longleftrightarrow> DaysInYear y = 366"
  by (simp add: leap_year_def DaysInYear_def)

lemma mod100_mod4: "y mod 100 = 0 \<Longrightarrow> y mod 4 = 0" for y :: int
  by auto

lemma mod400_mod100: "y mod 400 = 0 \<Longrightarrow> y mod 100 = 0" for y :: int
  by auto

lemma shift4: "(y + 1 - 1969) mod 4 = 0 \<longleftrightarrow> y mod 4 = 0" for y :: int
proof -
  have "y + 1 - 1969 = y + 4 * (- 492)" by simp
  then show ?thesis by (simp only: mod_mult_self2)
qed

lemma shift100: "(y + 1 - 1901) mod 100 = 0 \<longleftrightarrow> y mod 100 = 0" for y :: int
proof -
  have "y + 1 - 1901 = y + 100 * (- 19)" by simp
  then show ?thesis by (simp only: mod_mult_self2)
qed

lemma shift400: "(y + 1 - 1601) mod 400 = 0 \<longleftrightarrow> y mod 400 = 0" for y :: int
proof -
  have "y + 1 - 1601 = y + 400 * (- 4)" by simp
  then show ?thesis by (simp only: mod_mult_self2)
qed

lemma DayFromYear_step: "DayFromYear (y + 1) = DayFromYear y + DaysInYear y"
proof -
  have d4: "(y + 1 - 1969) div 4 = (y - 1969) div 4 + (if y mod 4 = 0 then 1 else 0)"
    using div_step [of 4 "y - 1969"] shift4 [of y] by (simp add: algebra_simps)
  have d100: "(y + 1 - 1901) div 100 = (y - 1901) div 100 + (if y mod 100 = 0 then 1 else 0)"
    using div_step [of 100 "y - 1901"] shift100 [of y] by (simp add: algebra_simps)
  have d400: "(y + 1 - 1601) div 400 = (y - 1601) div 400 + (if y mod 400 = 0 then 1 else 0)"
    using div_step [of 400 "y - 1601"] shift400 [of y] by (simp add: algebra_simps)
  show ?thesis
    unfolding DayFromYear_def DaysInYear_def d4 d100 d400
    using mod100_mod4 [of y] mod400_mod100 [of y] by auto
qed

lemma DaysInYear_ge: "365 \<le> DaysInYear y"
  by (simp add: DaysInYear_def)

lemma DayFromYear_1970: "DayFromYear 1970 = 0"
  by (simp add: DayFromYear_def)

lemma days_before_year_eq: "days_before_year y = DayFromYear y"
proof (cases "1970 \<le> y")
  case True
  then show ?thesis
  proof (induction y rule: int_ge_induct)
    case base
    then show ?case by (simp add: days_before_year.simps DayFromYear_1970)
  next
    case (step i)
    have "days_before_year (i + 1) = days_before_year i + year_length i"
      using step.hyps by (subst days_before_year.simps) simp
    with step.IH show ?case
      by (simp add: DayFromYear_step year_length_DaysInYear)
  qed
next
  case False
  then have "y \<le> 1970" by simp
  then show ?thesis
  proof (induction y rule: int_le_induct)
    case base
    then show ?case by (simp add: days_before_year.simps DayFromYear_1970)
  next
    case (step i)
    have "days_before_year (i - 1) = days_before_year i - year_length (i - 1)"
      using step.hyps by (subst days_before_year.simps) simp
    with step.IH DayFromYear_step [of "i - 1"] show ?case
      by (simp add: year_length_DaysInYear)
  qed
qed

text \<open>The days up to a year lie within two days of the mean: 146097 days in 400 years.\<close>

lemma DayFromYear_bounds:
  "146097 * (y - 1970) - 506 \<le> 400 * DayFromYear y"
  "400 * DayFromYear y \<le> 146097 * (y - 1970) + 589"
proof -
  define q4 q100 q400 where "q4 = (y - 1969) div 4" and "q100 = (y - 1901) div 100"
    and "q400 = (y - 1601) div 400"
  have b4: "4 * q4 \<le> y - 1969" "y - 1969 \<le> 4 * q4 + 3"
    unfolding q4_def by presburger+
  have b100: "100 * q100 \<le> y - 1901" "y - 1901 \<le> 100 * q100 + 99"
    unfolding q100_def using pos_mod_bound [of 100 "y - 1901"] pos_mod_sign [of 100 "y - 1901"]
      mult_div_mod_eq [of 100 "y - 1901"] by linarith+
  have b400: "400 * q400 \<le> y - 1601" "y - 1601 \<le> 400 * q400 + 399"
    unfolding q400_def using pos_mod_bound [of 400 "y - 1601"] pos_mod_sign [of 400 "y - 1601"]
      mult_div_mod_eq [of 400 "y - 1601"] by linarith+
  have d: "DayFromYear y = 365 * (y - 1970) + q4 - q100 + q400"
    by (simp add: DayFromYear_def q4_def q100_def q400_def)
  show "146097 * (y - 1970) - 506 \<le> 400 * DayFromYear y"
    unfolding d using b4 b100 b400 by simp
  show "400 * DayFromYear y \<le> 146097 * (y - 1970) + 589"
    unfolding d using b4 b100 b400 by simp
qed

lemma YearFromDay_unique:
  assumes "DayFromYear y \<le> d" and "d < DayFromYear (y + 1)"
  shows "YearFromDay d = y"
proof -
  define e where "e = 1970 + (d * 400) div 146097"
  have e1: "146097 * (e - 1970) \<le> 400 * d" and e2: "400 * d \<le> 146097 * (e - 1970) + 146096"
    unfolding e_def by simp_all
  have lo: "y - 1 \<le> e"
    using e2 assms(1) DayFromYear_bounds(1) [of y] by simp
  have hi: "e \<le> y + 1"
    using e1 assms(2) DayFromYear_bounds(2) [of "y + 1"] by simp
  have up: "DayFromYear y < DayFromYear (y + 1)"
    using DayFromYear_step [of y] DaysInYear_ge [of y] by simp
  have down: "DayFromYear (y - 1) < DayFromYear y"
    using DayFromYear_step [of "y - 1"] DaysInYear_ge [of "y - 1"] by simp
  from lo hi consider "e = y - 1" | "e = y" | "e = y + 1" by linarith
  then show ?thesis
  proof cases
    case 1
    with assms down show ?thesis
      by (simp add: YearFromDay_def e_def [symmetric] Let_def)
  next
    case 2
    with assms show ?thesis
      by (simp add: YearFromDay_def e_def [symmetric] Let_def)
  next
    case 3
    with assms show ?thesis
      by (simp add: YearFromDay_def e_def [symmetric] Let_def)
  qed
qed

lemma year_walk_sound:
  assumes "year_walk y r = (y', r')"
  shows "0 \<le> r' \<and> r' < year_length y' \<and> DayFromYear y' + r' = DayFromYear y + r"
  using assms
proof (induction y r rule: year_walk.induct)
  case (1 y r)
  show ?case
  proof (cases "year_length y \<le> r")
    case True
    with "1.prems" have w: "year_walk (y + 1) (r - year_length y) = (y', r')"
      by (subst (asm) year_walk.simps) simp
    have "0 \<le> r' \<and> r' < year_length y' \<and>
        DayFromYear y' + r' = DayFromYear (y + 1) + (r - year_length y)"
      using True w by (intro "1.IH"(1)) simp_all
    then show ?thesis
      by (simp add: DayFromYear_step year_length_DaysInYear)
  next
    case False
    show ?thesis
    proof (cases "r < 0")
      case True
      with False "1.prems" have w: "year_walk (y - 1) (r + year_length (y - 1)) = (y', r')"
        by (subst (asm) year_walk.simps) simp
      have "0 \<le> r' \<and> r' < year_length y' \<and>
          DayFromYear y' + r' = DayFromYear (y - 1) + (r + year_length (y - 1))"
        using False True w by (intro "1.IH"(2)) simp_all
      with DayFromYear_step [of "y - 1"] show ?thesis
        by (simp add: year_length_DaysInYear)
    next
      case nonneg: False
      with False "1.prems" have "y' = y" and "r' = r"
        by (subst (asm) year_walk.simps, simp)+
      with False nonneg show ?thesis by simp
    qed
  qed
qed

lemma days_before_month_step:
  "0 \<le> m \<Longrightarrow> days_before_month y (m + 1) = days_before_month y m + month_length y m"
  by (subst days_before_month.simps) simp

lemma days_before_month_0: "days_before_month y 0 = 0"
  by (subst days_before_month.simps) simp

lemma days_before_month_values:
  "days_before_month y 1 = 31"
  "days_before_month y 2 = 59 + (if leap_year y then 1 else 0)"
  "days_before_month y 3 = 90 + (if leap_year y then 1 else 0)"
  "days_before_month y 4 = 120 + (if leap_year y then 1 else 0)"
  "days_before_month y 5 = 151 + (if leap_year y then 1 else 0)"
  "days_before_month y 6 = 181 + (if leap_year y then 1 else 0)"
  "days_before_month y 7 = 212 + (if leap_year y then 1 else 0)"
  "days_before_month y 8 = 243 + (if leap_year y then 1 else 0)"
  "days_before_month y 9 = 273 + (if leap_year y then 1 else 0)"
  "days_before_month y 10 = 304 + (if leap_year y then 1 else 0)"
  "days_before_month y 11 = 334 + (if leap_year y then 1 else 0)"
  "days_before_month y 12 = 365 + (if leap_year y then 1 else 0)"
proof -
  show 1: "days_before_month y 1 = 31"
    using days_before_month_step [of 0 y] by (simp add: days_before_month_0 month_length_def)
  show 2: "days_before_month y 2 = 59 + (if leap_year y then 1 else 0)"
    using days_before_month_step [of 1 y] 1 by (simp add: month_length_def)
  show 3: "days_before_month y 3 = 90 + (if leap_year y then 1 else 0)"
    using days_before_month_step [of 2 y] 2 by (simp add: month_length_def)
  show 4: "days_before_month y 4 = 120 + (if leap_year y then 1 else 0)"
    using days_before_month_step [of 3 y] 3 by (simp add: month_length_def)
  show 5: "days_before_month y 5 = 151 + (if leap_year y then 1 else 0)"
    using days_before_month_step [of 4 y] 4 by (simp add: month_length_def)
  show 6: "days_before_month y 6 = 181 + (if leap_year y then 1 else 0)"
    using days_before_month_step [of 5 y] 5 by (simp add: month_length_def)
  show 7: "days_before_month y 7 = 212 + (if leap_year y then 1 else 0)"
    using days_before_month_step [of 6 y] 6 by (simp add: month_length_def)
  show 8: "days_before_month y 8 = 243 + (if leap_year y then 1 else 0)"
    using days_before_month_step [of 7 y] 7 by (simp add: month_length_def)
  show 9: "days_before_month y 9 = 273 + (if leap_year y then 1 else 0)"
    using days_before_month_step [of 8 y] 8 by (simp add: month_length_def)
  show 10: "days_before_month y 10 = 304 + (if leap_year y then 1 else 0)"
    using days_before_month_step [of 9 y] 9 by (simp add: month_length_def)
  show 11: "days_before_month y 11 = 334 + (if leap_year y then 1 else 0)"
    using days_before_month_step [of 10 y] 10 by (simp add: month_length_def)
  show "days_before_month y 12 = 365 + (if leap_year y then 1 else 0)"
    using days_before_month_step [of 11 y] 11 by (simp add: month_length_def)
qed

lemma month_cases:
  assumes "0 \<le> m" and "m \<le> 11"
  obtains "m = 0" | "m = 1" | "m = 2" | "m = 3" | "m = 4" | "m = 5" | "m = 6" | "m = 7"
    | "m = 8" | "m = 9" | "m = 10" | "m = (11::int)"
proof -
  have "m = 0 \<or> m = 1 \<or> m = 2 \<or> m = 3 \<or> m = 4 \<or> m = 5 \<or> m = 6 \<or> m = 7
      \<or> m = 8 \<or> m = 9 \<or> m = 10 \<or> m = 11"
    using assms by presburger
  then show thesis
    using that by blast
qed

lemma monthStart_eq:
  assumes "0 \<le> m" and "m \<le> 11"
  shows "monthStart (leap_year y) m = days_before_month y m"
  using assms
  by (cases m rule: month_cases)
    (simp_all add: monthStart_def days_before_month_0 days_before_month_values)

lemma days_before_month_12: "days_before_month y 12 = year_length y"
  by (simp add: days_before_month_values year_length_def)

lemma month_walk_sound:
  assumes "0 \<le> m" and "m \<le> 11" and "0 \<le> r"
    and "days_before_month y m + r < year_length y"
    and "month_walk y m r = (m', r')"
  shows "m \<le> m' \<and> m' \<le> 11 \<and> 0 \<le> r' \<and> r' < month_length y m' \<and>
         days_before_month y m' + r' = days_before_month y m + r"
  using assms
proof (induction y m r rule: month_walk.induct)
  case (1 y m r)
  show ?case
  proof (cases "m < 11 \<and> month_length y m \<le> r")
    case True
    with "1.prems" have w: "month_walk y (m + 1) (r - month_length y m) = (m', r')"
      by (subst (asm) month_walk.simps) simp
    have s: "days_before_month y (m + 1) = days_before_month y m + month_length y m"
      using "1.prems"(1) by (rule days_before_month_step)
    have "m + 1 \<le> m' \<and> m' \<le> 11 \<and> 0 \<le> r' \<and> r' < month_length y m' \<and>
        days_before_month y m' + r' = days_before_month y (m + 1) + (r - month_length y m)"
      using True "1.prems" w s by (intro "1.IH") simp_all
    then show ?thesis
      by (simp add: s)
  next
    case False
    with "1.prems" have e: "m' = m" "r' = r"
      by (subst (asm) month_walk.simps, simp)+
    show ?thesis
    proof (cases "m < 11")
      case True
      with False e "1.prems" show ?thesis by simp
    next
      case False
      with "1.prems" have m: "m = 11" by simp
      have "days_before_month y 12 = days_before_month y 11 + month_length y 11"
        using days_before_month_step [of 11 y] by simp
      with "1.prems" m e show ?thesis
        by (simp add: days_before_month_12)
    qed
  qed
qed

text \<open>\<open>YearFromTime\<close>, \<open>MonthFromTime\<close> and \<open>DateFromTime\<close> give the civil date of the day of a
  time value.\<close>

lemma civil_agrees:
  assumes "civil_of_day (t div 86400000) = (y, m, d)"
  shows "YearFromTime t = y \<and> MonthFromTime t = m \<and> DateFromTime t = d \<and>
         0 \<le> m \<and> m \<le> 11 \<and> 1 \<le> d \<and> d \<le> month_length y m"
proof -
  let ?day = "t div 86400000"
  obtain y0 r where yw: "year_walk 1970 ?day = (y0, r)"
    by (cases "year_walk 1970 ?day")
  obtain m0 r' where mw: "month_walk y0 0 r = (m0, r')"
    by (cases "month_walk y0 0 r")
  from assms yw mw have e: "y0 = y" "m0 = m" "d = r' + 1"
    by (simp_all add: civil_of_day_def)
  have ys: "0 \<le> r \<and> r < year_length y \<and> DayFromYear y + r = ?day"
    using year_walk_sound [of 1970 ?day y0 r] yw e by (simp add: DayFromYear_1970)
  have "DayFromYear y \<le> ?day" and "?day < DayFromYear (y + 1)"
    using ys by (simp_all add: DayFromYear_step year_length_DaysInYear [symmetric])
  then have Y: "YearFromDay ?day = y"
    by (rule YearFromDay_unique)
  have dwy: "DayWithinYear t = r"
    using ys by (simp add: DayWithinYear_def YearFromTime_def Day_def msPerDay_def Y)
  have leap: "InLeapYear t \<longleftrightarrow> leap_year y"
    by (simp add: InLeapYear_def YearFromTime_def Day_def msPerDay_def Y leap_year_DaysInYear)
  have ms: "0 \<le> m \<and> m \<le> 11 \<and> 0 \<le> r' \<and> r' < month_length y m \<and>
      days_before_month y m + r' = r"
    using month_walk_sound [of 0 r y m r'] ys mw e by (simp add: days_before_month_0)
  then have m: "0 \<le> m" "m \<le> 11" by simp_all
  have M: "MonthFromTime t = m"
    using m ms
    by (cases m rule: month_cases; cases "leap_year y";
        simp add: MonthFromTime_def dwy leap days_before_month_0 days_before_month_values
          month_length_def)
  have D: "DateFromTime t = d"
    using ms by (simp add: DateFromTime_def M dwy leap monthStart_eq [OF m] e)
  show ?thesis
    using Y M D ms e by (simp add: YearFromTime_def Day_def msPerDay_def)
qed

lemma sixMonthsEarlier_eq:
  assumes "0 \<le> m" and "m \<le> 11"
  shows "sixMonthsEarlier y m = (y + (m - 6) div 12, (m - 6) mod 12)"
proof -
  have "12 * y + m - 6 = (m - 6) + y * 12" by simp
  then show ?thesis
    by (simp only: sixMonthsEarlier_def div_mult_self1 mod_mult_self1)
qed

lemma sixMonthsEarlier_range:
  assumes "0 \<le> m" and "m \<le> 11" and "sixMonthsEarlier y m = (y', m')"
  shows "0 \<le> m' \<and> m' \<le> 11"
proof -
  have "0 \<le> (m - 6) mod 12" and "(m - 6) mod 12 < 12"
    by simp_all
  then show ?thesis
    using assms by (auto simp: sixMonthsEarlier_eq)
qed

lemma MakeDay_civil:
  assumes "0 \<le> m" and "m \<le> 11" and "sixMonthsEarlier y m = (y', m')"
  shows "MakeDay y (m - 6) d = day_of_civil y' m' d"
proof -
  have r: "0 \<le> m' \<and> m' \<le> 11"
    using assms by (rule sixMonthsEarlier_range)
  have e: "y' = y + (m - 6) div 12" "m' = (m - 6) mod 12"
    using assms by (simp_all add: sixMonthsEarlier_eq)
  have "DayFromYear y' = days_before_year y'"
    by (simp add: days_before_year_eq)
  moreover have "monthStart (DaysInYear y' = 366) m' = days_before_month y' m'"
    using r monthStart_eq [of m' y'] by (simp add: leap_year_DaysInYear)
  ultimately show ?thesis
    by (simp add: MakeDay_def day_of_civil_def Let_def e [symmetric])
qed

text \<open>
  The cut-off that the code computes, in civil terms: the time of day of the reading, on
  the day that lies as many days after the first day of the month six months earlier as
  the reading lies after the first day of its own month.
\<close>

lemma sixMonthsAgo_civil:
  assumes "civil_of_day (LocalTime h now div 86400000) = (y, m, d)"
    and "sixMonthsEarlier y m = (y', m')"
  shows "sixMonthsAgo h now
       = UTC h (day_of_civil y' m' d * 86400000 + LocalTime h now mod 86400000)"
proof -
  let ?t = "LocalTime h now"
  have c: "YearFromTime ?t = y \<and> MonthFromTime ?t = m \<and> DateFromTime ?t = d \<and>
      0 \<le> m \<and> m \<le> 11 \<and> 1 \<le> d \<and> d \<le> month_length y m"
    using assms(1) by (rule civil_agrees)
  then have "MakeDay y (m - 6) d = day_of_civil y' m' d"
    using assms(2) by (intro MakeDay_civil) simp_all
  with c show ?thesis
    by (simp add: sixMonthsAgo_def setMonth_def getMonth_def MakeDate_def TimeWithinDay_def
          msPerDay_def Let_def)
qed

text \<open>When the month six months earlier has a day with the number of today's, the cut-off
  is six calendar months before today.\<close>

lemma sixMonthsAgo_calendar:
  assumes "sameDayExists (LocalTime h now)"
  shows "sixMonthsAgo h now = sixCalendarMonthsBefore h now"
proof -
  let ?t = "LocalTime h now"
  obtain y m d where c: "civil_of_day (?t div 86400000) = (y, m, d)"
    by (cases "civil_of_day (?t div 86400000)")
  obtain y' m' where s: "sixMonthsEarlier y m = (y', m')"
    by (cases "sixMonthsEarlier y m")
  from assms c s have "d \<le> month_length y' m'"
    by (simp add: sameDayExists_def)
  then have "min d (month_length y' m') = d"
    by simp
  then have "sixCalendarMonthsBefore h now
      = UTC h (day_of_civil y' m' d * 86400000 + ?t mod 86400000)"
    by (simp add: sixCalendarMonthsBefore_def sixCalendarMonthsBeforeLocal_def c s)
  with sixMonthsAgo_civil [OF c s] show ?thesis
    by simp
qed

subsection \<open>The filter\<close>

lemma fst_Array_filter:
  assumes "\<And>x s. fst (f x s) = p x"
  shows "fst (Array_filter f xs s) = filter p xs"
  using assms by (induction xs arbitrary: s) (auto simp: split_beta)

text \<open>For a subject with positive living area and lot size the first five tests of the
  callback are the first five predicates, and they decide whether the clock is read.\<close>

lemma filterCallback_test:
  assumes "sqft (subject s) > 0" and "lotSize (subject s) > 0"
  shows "fst (filterCallback h clk s c k) \<longleftrightarrow> firstFive s c \<and> saleDate c \<ge> sixMonthsAgo h (clk k)"
  using assms
  by (auto simp: filterCallback_def firstFive_def sixMonthsAgo_def new_Date_def js_gt_def Let_def)

lemma filterCallback_count:
  assumes "sqft (subject s) > 0" and "lotSize (subject s) > 0"
  shows "snd (filterCallback h clk s c k) = (if firstFive s c then Suc k else k)"
  using assms
  by (auto simp: filterCallback_def firstFive_def new_Date_def js_gt_def Let_def)

lemma filterCallback_reading:
  assumes "sqft (subject s) > 0" and "lotSize (subject s) > 0" and "covered h (clk k)"
  shows "fst (filterCallback h clk s c k) = sixPredicates h (clk k) s c"
proof -
  have "sixMonthsAgo h (clk k) = sixCalendarMonthsBefore h (clk k)"
    using assms(3) by (intro sixMonthsAgo_calendar) (simp add: covered_def)
  then show ?thesis
    by (simp add: filterCallback_test [OF assms(1,2)] sixPredicates_def)
qed

lemma todayFor_Cons:
  "todayFor clk k s (c # cs) 0 = clk k"
  "todayFor clk k s (c # cs) (Suc j) = todayFor clk (if firstFive s c then Suc k else k) s cs j"
  by (simp_all add: todayFor_def)

lemma filterComparables_positions:
  assumes "sqft (subject s) > 0" and "lotSize (subject s) > 0"
    and "\<forall>i. k \<le> i \<and> i < k + length cs \<longrightarrow> covered h (clk i)"
  shows "fst (filterComparables h clk cs s k)
       = nths cs {i. sixPredicates h (todayFor clk k s cs i) s (cs ! i)}"
  using assms(3)
proof (induction cs arbitrary: k)
  case Nil
  then show ?case by (simp add: filterComparables_def)
next
  case (Cons c cs)
  let ?k' = "if firstFive s c then Suc k else k"
  obtain b k' where f: "filterCallback h clk s c k = (b, k')"
    by (cases "filterCallback h clk s c k")
  have "covered h (clk k)"
    using Cons.prems by simp
  then have b: "b = sixPredicates h (clk k) s c"
    using filterCallback_reading [OF assms(1,2), of h clk k c] f by simp
  have k': "k' = ?k'"
    using filterCallback_count [OF assms(1,2), of h clk c k] f by simp
  have "\<forall>i. ?k' \<le> i \<and> i < ?k' + length cs \<longrightarrow> covered h (clk i)"
    using Cons.prems by auto
  then have IH: "fst (filterComparables h clk cs s ?k')
      = nths cs {i. sixPredicates h (todayFor clk ?k' s cs i) s (cs ! i)}"
    by (rule Cons.IH)
  have "fst (filterComparables h clk (c # cs) s k)
      = (if b then [c] else []) @ fst (filterComparables h clk cs s ?k')"
    by (simp add: filterComparables_def f k' split_beta)
  also have "\<dots> = nths (c # cs) {i. sixPredicates h (todayFor clk k s (c # cs) i) s ((c # cs) ! i)}"
    by (simp add: IH b nths_Cons todayFor_Cons)
  finally show ?case .
qed

text \<open>Whatever the clock reads, a candidate that is kept is one of the candidates, and
  it passed the code's six tests at some reading.\<close>

lemma Array_filter_member:
  assumes "x \<in> set (fst (Array_filter f xs s))"
  shows "x \<in> set xs \<and> (\<exists>s'. fst (f x s'))"
  using assms
proof (induction xs arbitrary: s)
  case Nil
  then show ?case by simp
next
  case (Cons y ys)
  obtain b s' where f: "f y s = (b, s')"
    by (cases "f y s")
  show ?case
  proof (cases "x = y \<and> b")
    case True
    with f have "fst (f x s)" by simp
    with True show ?thesis by auto
  next
    case False
    with Cons.prems f have "x \<in> set (fst (Array_filter f ys s'))"
      by (auto simp: split_beta split: if_splits)
    from Cons.IH [OF this] show ?thesis by simp
  qed
qed

lemma filterComparables_subset: "set (fst (filterComparables h clk cs s k)) \<subseteq> set cs"
  unfolding filterComparables_def by (auto dest: Array_filter_member)

subsection \<open>Trimming and the median\<close>

lemma length_adjustedPrices: "length (adjustedPrices cs) = length cs"
  by (simp add: adjustedPrices_def)

lemma floor_fifth: "\<lfloor>real n * 0.2\<rfloor> = int (n div 5)"
proof -
  have "real n * 0.2 = real n / real 5" by simp
  then show ?thesis by (simp only: floor_divide_of_nat_eq)
qed

lemma removeCount_eq: "removeCount cs = int (length cs div 5)"
  by (simp only: removeCount_def length_adjustedPrices floor_fifth)

lemma trimmedPrices_eq:
  "trimmedPrices cs =
     take (length cs - 2 * (length cs div 5)) (drop (length cs div 5) (adjustedPrices cs))"
proof -
  have le: "\<not> length cs < length cs div 5" by simp
  have eq: "nat (2 * int (length cs div 5)) = 2 * (length cs div 5)"
    by (simp add: nat_mult_distrib)
  show ?thesis
    unfolding trimmedPrices_def removeCount_eq slice_def length_adjustedPrices Let_def
    using le by (simp add: nat_diff_distrib' min_def eq)
qed

lemma length_trimmedPrices: "length (trimmedPrices cs) = length cs - 2 * (length cs div 5)"
  unfolding trimmedPrices_eq by (simp add: length_adjustedPrices)

lemma trim_less: "0 < n \<Longrightarrow> 2 * (n div 5) < (n::nat)"
  by arith

lemma trimmedPrices_nonempty: "cs \<noteq> [] \<Longrightarrow> 0 < length (trimmedPrices cs)"
  using trim_less [of "length cs"] by (simp add: length_trimmedPrices)

lemma mid_eq: "mid cs = int (length (trimmedPrices cs) div 2)"
proof -
  have "real (length (trimmedPrices cs)) / 2 = real (length (trimmedPrices cs)) / real 2"
    by simp
  then show ?thesis
    unfolding mid_def by (simp only: floor_divide_of_nat_eq)
qed

lemma removeFromEachEnd_eq: "removeFromEachEnd r xs = take (length xs - 2 * r) (drop r xs)"
proof -
  have "rev (drop r (rev (drop r xs))) =
          take (length (rev (drop r xs)) - r) (rev (rev (drop r xs)))"
    by (rule rev_drop)
  then show ?thesis
    by (simp add: removeFromEachEnd_def mult_2 diff_diff_eq)
qed

lemma trimmedPrices_spec:
  "trimmedPrices cs =
     removeFromEachEnd (nat \<lfloor>real (length cs) * 0.2\<rfloor>) (sort (map adjustedPrice cs))"
proof -
  have "nat \<lfloor>real (length cs) * 0.2\<rfloor> = length cs div 5"
    by (simp only: floor_fifth nat_int)
  then show ?thesis
    by (simp only: trimmedPrices_eq removeFromEachEnd_eq adjustedPrices_def length_sort length_map)
qed

lemma even_pos_ge2: "0 < n \<Longrightarrow> even n \<Longrightarrow> 2 \<le> (n::nat)"
  by (auto elim: evenE)

lemma calculateMarketValue_median:
  assumes "cs \<noteq> []"
  shows "calculateMarketValue cs = Num (median (trimmedPrices cs))"
proof -
  let ?t = "trimmedPrices cs"
  have pos: "0 < length ?t"
    using assms by (rule trimmedPrices_nonempty)
  show ?thesis
  proof (cases "even (length ?t)")
    case True
    with pos have "2 \<le> length ?t" by (simp add: even_pos_ge2)
    then have "1 \<le> length ?t div 2" "length ?t div 2 < length ?t" by auto
    with True assms show ?thesis
      by (simp add: calculateMarketValue_def mid_eq at_index_def median_def nat_diff_distrib'
            flip: even_iff_mod_2_eq_zero)
  next
    case False
    with pos assms show ?thesis
      by (simp add: calculateMarketValue_def mid_eq at_index_def median_def even_iff_mod_2_eq_zero)
  qed
qed

subsection \<open>What a run reads of its inputs\<close>

lemma cutoff_aug29: "sixMonthsAgo utc example_aug29 = 1740830400000"
  by code_simp

lemma cutoff_sep01: "sixMonthsAgo utc example_sep01 = 1740830400000"
  by code_simp

lemma raw_fields:
  assumes "raw c1 = raw c2"
  shows "characteristics c1 = characteristics c2" and "distanceMiles c1 = distanceMiles c2"
    and "saleDate c1 = saleDate c2" and "salePrice c1 = salePrice c2"
proof -
  have "characteristics (raw c1) = characteristics (raw c2)"
    and "distanceMiles (raw c1) = distanceMiles (raw c2)"
    and "saleDate (raw c1) = saleDate (raw c2)"
    and "salePrice (raw c1) = salePrice (raw c2)"
    using assms by simp_all
  then show "characteristics c1 = characteristics c2" and "distanceMiles c1 = distanceMiles c2"
    and "saleDate c1 = saleDate c2" and "salePrice c1 = salePrice c2"
    by (simp_all add: raw_def)
qed

lemma filterCallback_same:
  assumes "same_cutoffs h clk1 clk2" and "raw c1 = raw c2"
  shows "filterCallback h clk1 s c1 k = filterCallback h clk2 s c2 k"
proof -
  have "setMonth h (clk1 k) (getMonth h (clk1 k) - 6) = setMonth h (clk2 k) (getMonth h (clk2 k) - 6)"
    using assms(1) by (simp add: same_cutoffs_def sixMonthsAgo_def)
  then show ?thesis
    by (simp add: filterCallback_def new_Date_def raw_fields [OF assms(2)])
qed

lemma Array_filter_same:
  assumes "\<And>x y s. raw x = raw y \<Longrightarrow> f x s = g y s" and "map raw xs = map raw ys"
  shows "map raw (fst (Array_filter f xs s)) = map raw (fst (Array_filter g ys s)) \<and>
         snd (Array_filter f xs s) = snd (Array_filter g ys s)"
  using assms(2)
proof (induction xs arbitrary: ys s)
  case Nil
  then show ?case by simp
next
  case (Cons x xs)
  then obtain y ys' where ys: "ys = y # ys'" and xy: "raw x = raw y"
    and rest: "map raw xs = map raw ys'"
    by (cases ys) auto
  have fg: "f x s = g y s"
    using xy by (rule assms(1))
  obtain b s' where g: "g y s = (b, s')"
    by (cases "g y s")
  from Cons.IH [OF rest, of s'] show ?case
    by (simp add: ys fg g xy split_beta)
qed

lemma adjust_same:
  assumes "raw c1 = raw c2"
  shows "applyAdjustments (c1\<lparr>adjustments := calculateAdjustments s c1\<rparr>)
       = applyAdjustments (c2\<lparr>adjustments := calculateAdjustments s c2\<rparr>)"
proof -
  have a: "calculateAdjustments s c1 = calculateAdjustments s c2"
    by (simp add: calculateAdjustments_def raw_fields [OF assms])
  have "c\<lparr>adjustments := A, adjustedPrice := P\<rparr> = (raw c)\<lparr>adjustments := A, adjustedPrice := P\<rparr>"
    for c A P
    by (simp add: raw_def)
  then have "c1\<lparr>adjustments := A, adjustedPrice := P\<rparr> = c2\<lparr>adjustments := A, adjustedPrice := P\<rparr>"
    for A P
    using assms by metis
  then show ?thesis
    by (simp add: applyAdjustments_def a raw_fields [OF assms])
qed

lemma map_adjust_same:
  assumes "map raw xs = map raw ys"
  shows "map (\<lambda>c. applyAdjustments (c\<lparr>adjustments := calculateAdjustments s c\<rparr>)) xs
       = map (\<lambda>c. applyAdjustments (c\<lparr>adjustments := calculateAdjustments s c\<rparr>)) ys"
  using assms
proof (induction xs arbitrary: ys)
  case Nil
  then show ?case by simp
next
  case (Cons x xs)
  then obtain y ys' where ys: "ys = y # ys'" and xy: "raw x = raw y"
    and rest: "map raw xs = map raw ys'"
    by (cases ys) auto
  have "applyAdjustments (x\<lparr>adjustments := calculateAdjustments s x\<rparr>)
      = applyAdjustments (y\<lparr>adjustments := calculateAdjustments s y\<rparr>)"
    using xy by (rule adjust_same)
  with Cons.IH [OF rest] ys show ?case
    by simp
qed

subsection \<open>The example comparables\<close>

lemma example_adjustments:
  "calculateAdjustments example_subject (example_comparable price miles sold)
   = [(''size'', 0), (''bedroom'', 0), (''bathroom'', 0), (''lotSize'', 0), (''age'', 0)]"
  by (simp add: calculateAdjustments_def Let_def example_subject_def example_comparable_def)

lemma example_adjusted:
  "applyAdjustments ((example_comparable price miles sold)
      \<lparr>adjustments := calculateAdjustments example_subject (example_comparable price miles sold)\<rparr>)
   = example_processed price miles sold"
  unfolding example_adjustments
  by (simp add: applyAdjustments_def Object_values_def example_processed_def example_comparable_def)

lemma example_larger_adjusted:
  "calculateAdjustments example_subject (example_larger 500000 1 sold_june)
     = [(''size'', - 30000), (''bedroom'', - 25000), (''bathroom'', - 7500),
        (''lotSize'', - 2500), (''age'', - 5000)] \<and>
   adjustedPrice (applyAdjustments ((example_larger 500000 1 sold_june)
      \<lparr>adjustments := calculateAdjustments example_subject (example_larger 500000 1 sold_june)\<rparr>))
     = 430000"
  by (simp add: calculateAdjustments_def applyAdjustments_def Object_values_def Let_def
        example_subject_def example_larger_def)

section \<open>The claims\<close>

text \<open>
  C1 does not hold of the code as it is stated. On 31 August 2024 a candidate sold on
  1 March 2024 satisfies all six predicates, six calendar months before that day being
  29 February, and is not kept: \<open>setMonth\<close> counts on from 31 February to 2 March. And
  there is no single "today" in a run: the clock is read for each candidate that passes
  the first five tests, so of two equal candidates, sold on the cut-off of the first
  reading, a clock that advances keeps the first and not the second.
\<close>

theorem filterComparables_month_end:
  "sixPredicates utc example_today example_subject (example_comparable 440000 1 sold_march_1) \<and>
   fst (filterComparables utc (fixed_clock example_today)
          [example_comparable 440000 1 sold_march_1] example_subject 0) = [] \<and>
   fst (filterComparables utc (ticking_clock example_later)
          [example_comparable 440000 1 sold_april_15, example_comparable 440000 1 sold_april_15]
          example_subject 0)
     = [example_comparable 440000 1 sold_april_15]"
proof -
  have "sixPredicates utc example_today example_subject (example_comparable 440000 1 sold_march_1)"
    by (simp add: sixPredicates_def firstFive_def calendar_today example_subject_def
          example_comparable_def sold_march_1_def)
  moreover have "fst (filterComparables utc (fixed_clock example_today)
      [example_comparable 440000 1 sold_march_1] example_subject 0) = []"
    by (simp add: filterComparables_def filterCallback_def new_Date_def fixed_clock_def
          cutoff_today [unfolded sixMonthsAgo_def] js_gt_def
          example_subject_def example_comparable_def sold_march_1_def)
  moreover have "fst (filterComparables utc (ticking_clock example_later)
      [example_comparable 440000 1 sold_april_15, example_comparable 440000 1 sold_april_15]
      example_subject 0) = [example_comparable 440000 1 sold_april_15]"
    by (simp add: filterComparables_def filterCallback_def new_Date_def ticking_clock_def
          cutoff_later [unfolded sixMonthsAgo_def] cutoff_later_ticks [unfolded sixMonthsAgo_def]
          js_gt_def example_subject_def example_comparable_def sold_april_15_def)
  ultimately show ?thesis by blast
qed

text \<open>
  C1, amended. For a subject whose living area and lot size are positive, any host time
  zone, and a run whose clock readings fall, in local time, on days of the month that
  exist six months earlier, as the 1st to the 28th always do:
  \<open>filterComparables\<close> keeps the candidate at a position exactly when the six predicates
  hold of it (size ratio within 0.8 and 1.2, bedrooms and bathrooms within 1, lot ratio
  within 0.75 and 1.25, at most one mile away, sold no earlier than six calendar months
  before today), where today is the reading of the clock taken for that candidate; under
  a clock that stands still at \<open>today\<close> it keeps exactly the candidates of which the six
  predicates hold; and what it returns is a subset of the candidates.
\<close>

theorem filterComparables_keeps:
  assumes "sqft (subject s) > 0" and "lotSize (subject s) > 0"
    and "\<forall>i. k \<le> i \<and> i < k + length cs \<longrightarrow> covered h (clk i)"
  shows "fst (filterComparables h clk cs s k)
           = nths cs {i. sixPredicates h (todayFor clk k s cs i) s (cs ! i)} \<and>
         ((\<forall>i. clk i = today) \<longrightarrow>
            fst (filterComparables h clk cs s k) = filter (sixPredicates h today s) cs) \<and>
         set (fst (filterComparables h clk cs s k)) \<subseteq> set cs"
proof -
  have "fst (filterComparables h clk cs s k) = filter (sixPredicates h today s) cs"
    if still: "\<forall>i. clk i = today"
  proof (cases cs)
    case Nil
    then show ?thesis by (simp add: filterComparables_def)
  next
    case (Cons c cs')
    with assms(3) have "covered h (clk k)" by simp
    with still have "covered h (clk i)" for i by simp
    then have "fst (filterCallback h clk s x i) = sixPredicates h today s x" for x i
      using filterCallback_reading [OF assms(1,2), of h clk i x] still by simp
    then show ?thesis
      unfolding filterComparables_def by (rule fst_Array_filter)
  qed
  with filterComparables_positions [OF assms] filterComparables_subset [of h clk cs s k]
  show ?thesis by blast
qed

theorem filterComparables_keeps_witness:
  "sqft (subject example_subject) > 0 \<and> lotSize (subject example_subject) > 0 \<and>
   covered utc (ticking_clock example_later 0) \<and> covered utc (ticking_clock example_later 1) \<and>
   covered utc (ticking_clock example_later 2) \<and> covered utc (ticking_clock example_later 3) \<and>
   fst (filterComparables utc (ticking_clock example_later)
          [example_comparable 440000 1 sold_april_15,
           example_comparable 440000 1 sold_april_15,
           example_comparable 435000 3 sold_june,
           example_larger 500000 1 sold_june] example_subject 0)
     = [example_comparable 440000 1 sold_april_15, example_larger 500000 1 sold_june] \<and>
   nths [example_comparable 440000 1 sold_april_15,
         example_comparable 440000 1 sold_april_15,
         example_comparable 435000 3 sold_june,
         example_larger 500000 1 sold_june]
     {i. sixPredicates utc
           (todayFor (ticking_clock example_later) 0 example_subject
              [example_comparable 440000 1 sold_april_15,
               example_comparable 440000 1 sold_april_15,
               example_comparable 435000 3 sold_june,
               example_larger 500000 1 sold_june] i)
           example_subject
           ([example_comparable 440000 1 sold_april_15,
             example_comparable 440000 1 sold_april_15,
             example_comparable 435000 3 sold_june,
             example_larger 500000 1 sold_june] ! i)}
     = [example_comparable 440000 1 sold_april_15, example_larger 500000 1 sold_june] \<and>
   covered utc (fixed_clock example_later 0) \<and>
   fst (filterComparables utc (fixed_clock example_later)
          [example_comparable 440000 1 sold_april_15,
           example_comparable 440000 1 sold_march_1] example_subject 0)
     = filter (sixPredicates utc example_later example_subject)
          [example_comparable 440000 1 sold_april_15, example_comparable 440000 1 sold_march_1] \<and>
   filter (sixPredicates utc example_later example_subject)
          [example_comparable 440000 1 sold_april_15, example_comparable 440000 1 sold_march_1]
     = [example_comparable 440000 1 sold_april_15]"
proof -
  let ?cs = "[example_comparable 440000 1 sold_april_15, example_comparable 440000 1 sold_april_15,
    example_comparable 435000 3 sold_june, example_larger 500000 1 sold_june]"
  let ?ds = "[example_comparable 440000 1 sold_april_15, example_comparable 440000 1 sold_march_1]"
  have h1: "sqft (subject example_subject) > 0" and h2: "lotSize (subject example_subject) > 0"
    by (simp_all add: example_subject_def)
  have c: "covered utc (ticking_clock example_later i)" if "i < 1000" for i
    using that covered_later(1) [of "int i"] by (simp add: ticking_clock_def)
  have h3: "\<forall>i. 0 \<le> i \<and> i < 0 + length ?cs \<longrightarrow> covered utc (ticking_clock example_later i)"
    using c by simp
  have f: "covered utc (fixed_clock example_later i)" for i
    using covered_later(1) [of 0] by (simp add: fixed_clock_def)
  have h4: "\<forall>i. 0 \<le> i \<and> i < 0 + length ?ds \<longrightarrow> covered utc (fixed_clock example_later i)"
    using f by simp
  have h5: "\<forall>i. fixed_clock example_later i = example_later"
    by (simp add: fixed_clock_def)
  have r: "fst (filterComparables utc (ticking_clock example_later) ?cs example_subject 0)
      = [example_comparable 440000 1 sold_april_15, example_larger 500000 1 sold_june]"
    by (simp add: filterComparables_def filterCallback_def new_Date_def ticking_clock_def
          cutoff_later [unfolded sixMonthsAgo_def] cutoff_later_ticks [unfolded sixMonthsAgo_def]
          js_gt_def example_subject_def example_comparable_def example_larger_def
          sold_april_15_def sold_june_def)
  have p: "filter (sixPredicates utc example_later example_subject) ?ds
      = [example_comparable 440000 1 sold_april_15]"
    using covered_later(2) [of 0]
    by (simp add: sixPredicates_def firstFive_def example_subject_def example_comparable_def
          sold_april_15_def sold_march_1_def)
  from filterComparables_keeps [OF h1 h2 h4, of example_later] h5
  have e: "fst (filterComparables utc (fixed_clock example_later) ?ds example_subject 0)
      = filter (sixPredicates utc example_later example_subject) ?ds"
    by blast
  from filterComparables_keeps [OF h1 h2 h3, of example_later] r
  have n: "nths ?cs {i. sixPredicates utc
        (todayFor (ticking_clock example_later) 0 example_subject ?cs i) example_subject (?cs ! i)}
      = [example_comparable 440000 1 sold_april_15, example_larger 500000 1 sold_june]"
    by simp
  have c0: "covered utc (ticking_clock example_later 0)"
    and c1: "covered utc (ticking_clock example_later 1)"
    and c2: "covered utc (ticking_clock example_later 2)"
    and c3: "covered utc (ticking_clock example_later 3)"
    by (simp_all add: c)
  from h1 h2 c0 c1 c2 c3 r n f [of 0] e p show ?thesis
    by blast
qed

text \<open>
  C2. \<open>calculateMarketValue\<close> computes the MarketValueAggregator of the adjusted prices: 0 for
  no comparables; otherwise the prices in ascending order lose \<open>floor (n * 0.2)\<close> elements at
  each end, and the result is the median of what is left, the mean of the two middle
  values for an even count and the middle value for an odd one.
\<close>

theorem calculateMarketValue_aggregates:
  "calculateMarketValue cs = Num (MarketValueAggregator (map adjustedPrice cs)) \<and>
   calculateMarketValue [] = Num 0 \<and>
   (\<exists>bottom top.
      sort (map adjustedPrice cs) = bottom @ trimmedPrices cs @ top \<and>
      length bottom = nat \<lfloor>real (length cs) * 0.2\<rfloor> \<and>
      length top = nat \<lfloor>real (length cs) * 0.2\<rfloor>)"
proof -
  let ?n = "length cs" and ?s = "sort (map adjustedPrice cs)"
  let ?r = "?n div 5"
  have r: "nat \<lfloor>real ?n * 0.2\<rfloor> = ?r"
    by (simp only: floor_fifth nat_int)
  have "calculateMarketValue cs = Num (MarketValueAggregator (map adjustedPrice cs))"
  proof (cases "cs = []")
    case True
    then show ?thesis by (simp add: calculateMarketValue_def MarketValueAggregator_def)
  next
    case False
    then show ?thesis
      by (simp add: calculateMarketValue_median trimmedPrices_spec MarketValueAggregator_def)
  qed
  moreover have "calculateMarketValue [] = Num 0"
    by (simp add: calculateMarketValue_def)
  moreover have "\<exists>bottom top. ?s = bottom @ trimmedPrices cs @ top \<and>
      length bottom = nat \<lfloor>real ?n * 0.2\<rfloor> \<and> length top = nat \<lfloor>real ?n * 0.2\<rfloor>"
  proof (intro exI conjI)
    have "take ?r ?s @ take (?n - 2 * ?r) (drop ?r ?s) @ drop (?n - 2 * ?r) (drop ?r ?s) = ?s"
      by (simp only: append_take_drop_id)
    then show "?s = take ?r ?s @ trimmedPrices cs @ drop (?n - 2 * ?r) (drop ?r ?s)"
      unfolding trimmedPrices_eq adjustedPrices_def by (rule sym)
    show "length (take ?r ?s) = nat \<lfloor>real ?n * 0.2\<rfloor>"
      unfolding r by simp
    show "length (drop (?n - 2 * ?r) (drop ?r ?s)) = nat \<lfloor>real ?n * 0.2\<rfloor>"
      unfolding r by simp
  qed
  ultimately show ?thesis by blast
qed

text \<open>
  C3. \<open>calculateAdjustments\<close> gives exactly five adjustments, named size, bedroom, bathroom,
  lotSize and age, each the negated difference between the comparable and the subject
  times its rate (150, 25000, 15000, 50000 and 1000); and \<open>applyAdjustments\<close> sets the
  adjusted price of the comparable that carries them to its sale price plus their sum.
\<close>

theorem adjustments_and_adjustedPrice:
  "map fst (calculateAdjustments s c) = [''size'', ''bedroom'', ''bathroom'', ''lotSize'', ''age''] \<and>
   map_of (calculateAdjustments s c) ''size''
     = Some (- (sqft (characteristics c) - sqft (subject s)) * 150) \<and>
   map_of (calculateAdjustments s c) ''bedroom''
     = Some (- (bedrooms (characteristics c) - bedrooms (subject s)) * 25000) \<and>
   map_of (calculateAdjustments s c) ''bathroom''
     = Some (- (bathrooms (characteristics c) - bathrooms (subject s)) * 15000) \<and>
   map_of (calculateAdjustments s c) ''lotSize''
     = Some (- (lotSize (characteristics c) - lotSize (subject s)) * 50000) \<and>
   map_of (calculateAdjustments s c) ''age''
     = Some (- (yearBuilt (characteristics c) - yearBuilt (subject s)) * 1000) \<and>
   adjustedPrice (applyAdjustments (c\<lparr>adjustments := calculateAdjustments s c\<rparr>))
     = salePrice c + sum_list (map snd (calculateAdjustments s c)) \<and>
   adjustedPrice (applyAdjustments (c\<lparr>adjustments := calculateAdjustments s c\<rparr>))
     = salePrice c
       + (- (sqft (characteristics c) - sqft (subject s)) * 150
          + - (bedrooms (characteristics c) - bedrooms (subject s)) * 25000
          + - (bathrooms (characteristics c) - bathrooms (subject s)) * 15000
          + - (lotSize (characteristics c) - lotSize (subject s)) * 50000
          + - (yearBuilt (characteristics c) - yearBuilt (subject s)) * 1000)"
  by (simp add: calculateAdjustments_def applyAdjustments_def Object_values_def Let_def)









text \<open>
  C7. \<open>calculateConfidence\<close> returns \<open>high\<close> exactly for five or more comparables, \<open>medium\<close>
  exactly for three or four and \<open>low\<close> exactly for fewer than three; so the confidence never
  falls when the number of comparables grows, in the order low, medium, high.
\<close>

theorem calculateConfidence_tiers:
  "(calculateConfidence cs = high \<longleftrightarrow> length cs \<ge> 5) \<and>
   (calculateConfidence cs = medium \<longleftrightarrow> 3 \<le> length cs \<and> length cs \<le> 4) \<and>
   (calculateConfidence cs = low \<longleftrightarrow> length cs < 3) \<and>
   (length cs \<le> length cs' \<longrightarrow>
      confidence_rank (calculateConfidence cs) \<le> confidence_rank (calculateConfidence cs'))"
  by (auto simp: calculateConfidence_def Let_def)

theorem calculateConfidence_tiers_witness:
  "length [example_comparable 440000 1 sold_june]
     \<le> length (replicate 5 (example_comparable 440000 1 sold_june)) \<and>
   calculateConfidence [example_comparable 440000 1 sold_june] = low \<and>
   calculateConfidence (replicate 5 (example_comparable 440000 1 sold_june)) = high \<and>
   confidence_rank (calculateConfidence [example_comparable 440000 1 sold_june])
     \<le> confidence_rank (calculateConfidence (replicate 5 (example_comparable 440000 1 sold_june)))"
  using calculateConfidence_tiers [of "[example_comparable 440000 1 sold_june]"
      "replicate 5 (example_comparable 440000 1 sold_june)"]
    calculateConfidence_tiers [of "replicate 5 (example_comparable 440000 1 sold_june)" "[]"]
  by simp

text \<open>
  C8. For a subject with a positive assessed value, raw comparables none of which
  survives the filter, and no AVM value, \<open>analyzeProperty\<close> returns an analysis (the model
  has no failing branch): market value 0, confidence low, sample size 0, a difference
  equal to the assessed value, a percentage difference of 100 and the verdict
  over-assessed.
\<close>

theorem analysis_without_comparables:
  assumes "0 < step6_assessedValue p"
    and "fst (filterComparables h clk raws p k) = []"
    and "step4_avmValue avm = None"
  shows "pa_comparables (fst (analyzeProperty h clk p raws avm k)) = [] \<and>
         pa_marketValue (fst (analyzeProperty h clk p raws avm k)) = Num 0 \<and>
         level (pa_confidence (fst (analyzeProperty h clk p raws avm k))) = low \<and>
         sampleSize (pa_confidence (fst (analyzeProperty h clk p raws avm k))) = 0 \<and>
         pa_assessedValue (fst (analyzeProperty h clk p raws avm k)) = step6_assessedValue p \<and>
         pa_difference (fst (analyzeProperty h clk p raws avm k)) = Num (step6_assessedValue p) \<and>
         pa_percentageDifference (fst (analyzeProperty h clk p raws avm k)) = Num 100 \<and>
         pa_verdict (fst (analyzeProperty h clk p raws avm k)) = over_assessed"
proof -
  obtain k' where f: "filterComparables h clk raws p k = ([], k')"
    using assms(2) by (cases "filterComparables h clk raws p k") simp
  have pc: "processComparables h clk raws p k =
      (\<lparr>p_comparables = [], p_marketValue = Num 0, p_confidence = low\<rparr>, k')"
    by (simp add: processComparables_def f calculateMarketValue_def calculateConfidence_def)
  have v: "step7_verdict (Num 100) = over_assessed"
    by (simp add: step7_verdict_def js_gt_def)
  show ?thesis
    using assms(1,3)
    by (simp add: analyzeProperty_def pc new_Date_def step5_finalMarketValue_def
          step6_difference_def step6_percentageDifference_def js_sub_def v Let_def)
qed

theorem analysis_without_comparables_witness:
  "0 < step6_assessedValue example_subject \<and>
   fst (filterComparables utc (fixed_clock example_today)
          [example_comparable 435000 3 sold_june, example_comparable 455000 1 sold_january]
          example_subject 0) = [] \<and>
   step4_avmValue None = None \<and>
   pa_marketValue (fst (analyzeProperty utc (fixed_clock example_today) example_subject
      [example_comparable 435000 3 sold_june, example_comparable 455000 1 sold_january]
      None 0)) = Num 0 \<and>
   pa_difference (fst (analyzeProperty utc (fixed_clock example_today) example_subject
      [example_comparable 435000 3 sold_june, example_comparable 455000 1 sold_january]
      None 0)) = Num 500000 \<and>
   pa_percentageDifference (fst (analyzeProperty utc (fixed_clock example_today) example_subject
      [example_comparable 435000 3 sold_june, example_comparable 455000 1 sold_january]
      None 0)) = Num 100 \<and>
   pa_verdict (fst (analyzeProperty utc (fixed_clock example_today) example_subject
      [example_comparable 435000 3 sold_june, example_comparable 455000 1 sold_january]
      None 0)) = over_assessed"
proof -
  let ?raws = "[example_comparable 435000 3 sold_june, example_comparable 455000 1 sold_january]"
  have a: "step6_assessedValue example_subject = 500000"
    by (simp add: step6_assessedValue_def example_subject_def)
  then have h1: "0 < step6_assessedValue example_subject"
    by simp
  have h2: "fst (filterComparables utc (fixed_clock example_today) ?raws example_subject 0) = []"
    by (simp add: filterComparables_def filterCallback_def new_Date_def fixed_clock_def
          cutoff_today [unfolded sixMonthsAgo_def] js_gt_def
          example_subject_def example_comparable_def sold_january_def sold_june_def)
  have h3: "step4_avmValue None = None"
    by (simp add: step4_avmValue_def)
  from analysis_without_comparables [OF h1 h2 h3] h1 h2 h3 a show ?thesis
    by simp
qed

text \<open>
  C9. The claim that two runs of \<open>processComparables\<close> on identical inputs give identical
  results does not hold of the code: \<open>filterComparables\<close> reads the system clock for the
  recency cut-off. One comparable sold on 10 March 2024 survives a run on 31 August 2024
  and not a run on 15 October 2024.
\<close>

theorem processComparables_reads_clock:
  "p_comparables (fst (processComparables utc (fixed_clock example_today)
      [example_comparable 440000 1 sold_march] example_subject 0))
     \<noteq> p_comparables (fst (processComparables utc (fixed_clock example_later)
      [example_comparable 440000 1 sold_march] example_subject 0)) \<and>
   p_marketValue (fst (processComparables utc (fixed_clock example_today)
      [example_comparable 440000 1 sold_march] example_subject 0)) = Num 440000 \<and>
   p_marketValue (fst (processComparables utc (fixed_clock example_later)
      [example_comparable 440000 1 sold_march] example_subject 0)) = Num 0"
proof -
  let ?c = "example_comparable 440000 1 sold_march"
  have f1: "filterComparables utc (fixed_clock example_today) [?c] example_subject 0 = ([?c], 1)"
    by (simp add: filterComparables_def filterCallback_def new_Date_def fixed_clock_def
          cutoff_today [unfolded sixMonthsAgo_def] js_gt_def
          example_subject_def example_comparable_def sold_march_def)
  have f2: "filterComparables utc (fixed_clock example_later) [?c] example_subject 0 = ([], 1)"
    by (simp add: filterComparables_def filterCallback_def new_Date_def fixed_clock_def
          cutoff_later [unfolded sixMonthsAgo_def] js_gt_def
          example_subject_def example_comparable_def sold_march_def)
  have m1: "calculateMarketValue [example_processed 440000 1 sold_march] = Num 440000"
    by (simp add: calculateMarketValue_median median_def trimmedPrices_eq adjustedPrices_def
          example_processed_def example_comparable_def)
  have m2: "calculateMarketValue [] = Num 0"
    by (simp add: calculateMarketValue_def)
  show ?thesis
    by (simp add: processComparables_def f1 f2 example_adjusted m1 m2 Let_def)
qed

text \<open>
  C9, amended. The clock is the only state that \<open>processComparables\<close> reads: two runs whose
  clock readings give the same six-month cut-offs, on the same subject and on raw
  comparables that agree in all but the \<open>adjustments\<close> and \<open>adjustedPrice\<close> fields, which a
  run overwrites, give the same comparables, market value and confidence, and read the
  clock equally often.
\<close>

theorem processComparables_deterministic:
  assumes "same_cutoffs h clk1 clk2" and "map raw raws1 = map raw raws2"
  shows "processComparables h clk1 raws1 s k = processComparables h clk2 raws2 s k"
proof -
  have f: "map raw (fst (filterComparables h clk1 raws1 s k)) = map raw (fst (filterComparables h clk2 raws2 s k))
      \<and> snd (filterComparables h clk1 raws1 s k) = snd (filterComparables h clk2 raws2 s k)"
    unfolding filterComparables_def
    by (rule Array_filter_same) (erule filterCallback_same [OF assms(1)], rule assms(2))
  from f have m: "map (\<lambda>c. applyAdjustments (c\<lparr>adjustments := calculateAdjustments s c\<rparr>))
        (fst (filterComparables h clk1 raws1 s k))
      = map (\<lambda>c. applyAdjustments (c\<lparr>adjustments := calculateAdjustments s c\<rparr>))
        (fst (filterComparables h clk2 raws2 s k))"
    by (intro map_adjust_same) simp
  from f have k: "snd (filterComparables h clk1 raws1 s k) = snd (filterComparables h clk2 raws2 s k)"
    by simp
  show ?thesis
    by (simp add: processComparables_def split_beta m k)
qed

theorem processComparables_deterministic_witness:
  "same_cutoffs utc (fixed_clock example_aug29) (fixed_clock example_sep01) \<and>
   example_aug29 \<noteq> example_sep01 \<and>
   map raw [example_comparable 440000 1 sold_june, example_comparable 435000 1 sold_june_2025]
     = map raw [example_comparable 440000 1 sold_june, example_processed 435000 1 sold_june_2025] \<and>
   processComparables utc (fixed_clock example_aug29)
     [example_comparable 440000 1 sold_june, example_comparable 435000 1 sold_june_2025]
     example_subject 0
   = processComparables utc (fixed_clock example_sep01)
     [example_comparable 440000 1 sold_june, example_processed 435000 1 sold_june_2025]
     example_subject 0"
proof -
  have h1: "same_cutoffs utc (fixed_clock example_aug29) (fixed_clock example_sep01)"
    by (simp add: same_cutoffs_def fixed_clock_def cutoff_aug29 cutoff_sep01)
  have h2: "map raw [example_comparable 440000 1 sold_june, example_comparable 435000 1 sold_june_2025]
     = map raw [example_comparable 440000 1 sold_june, example_processed 435000 1 sold_june_2025]"
    by (simp add: raw_def example_processed_def)
  have h3: "example_aug29 \<noteq> example_sep01"
    by (simp add: example_aug29_def example_sep01_def)
  from processComparables_deterministic [OF h1 h2, of example_subject 0] h1 h2 h3 show ?thesis
    by simp
qed

text \<open>
  C10. For a non-empty list of \<open>n\<close> comparables the trim count \<open>floor (n * 0.2)\<close> is less than
  half of \<open>n\<close>, so the trimmed prices are not empty; the indices that the median reads,
  \<open>mid - 1\<close> and \<open>mid\<close> for an even count and \<open>mid\<close> for an odd one, lie within the trimmed
  prices; and the result is a finite number, never NaN from an \<open>undefined\<close> element.
\<close>

theorem calculateMarketValue_in_bounds:
  assumes "cs \<noteq> []"
  shows "removeCount cs = \<lfloor>real (length cs) * 0.2\<rfloor> \<and>
         2 * \<lfloor>real (length cs) * 0.2\<rfloor> < int (length cs) \<and>
         trimmedPrices cs \<noteq> [] \<and>
         (length (trimmedPrices cs) mod 2 = 0 \<longrightarrow>
            0 \<le> mid cs - 1 \<and> mid cs < int (length (trimmedPrices cs))) \<and>
         (length (trimmedPrices cs) mod 2 \<noteq> 0 \<longrightarrow>
            0 \<le> mid cs \<and> mid cs < int (length (trimmedPrices cs))) \<and>
         (\<exists>v. calculateMarketValue cs = Num v)"
proof -
  let ?t = "trimmedPrices cs"
  have pos: "0 < length ?t"
    using assms by (rule trimmedPrices_nonempty)
  have "removeCount cs = \<lfloor>real (length cs) * 0.2\<rfloor>"
    by (simp only: removeCount_def length_adjustedPrices)
  moreover have "2 * \<lfloor>real (length cs) * 0.2\<rfloor> < int (length cs)"
    using assms trim_less [of "length cs"] by (simp only: floor_fifth) simp
  moreover have "?t \<noteq> []"
    using pos by simp
  moreover have "0 \<le> mid cs - 1 \<and> mid cs < int (length ?t)" if "length ?t mod 2 = 0"
  proof -
    from that have "even (length ?t)" by (simp add: even_iff_mod_2_eq_zero)
    with pos have "2 \<le> length ?t" by (simp add: even_pos_ge2)
    then show ?thesis by (simp add: mid_eq)
  qed
  moreover have "0 \<le> mid cs \<and> mid cs < int (length ?t)"
    using pos by (simp add: mid_eq)
  moreover have "\<exists>v. calculateMarketValue cs = Num v"
    using assms by (simp add: calculateMarketValue_median)
  ultimately show ?thesis by blast
qed

theorem calculateMarketValue_in_bounds_witness:
  "[example_processed 440000 1 sold_june, example_processed 435000 1 sold_june,
    example_processed 455000 1 sold_june] \<noteq> [] \<and>
   length (trimmedPrices [example_processed 440000 1 sold_june,
     example_processed 435000 1 sold_june, example_processed 455000 1 sold_june]) mod 2 \<noteq> 0 \<and>
   mid [example_processed 440000 1 sold_june, example_processed 435000 1 sold_june,
     example_processed 455000 1 sold_june] = 1 \<and>
   [example_processed 440000 1 sold_june, example_processed 435000 1 sold_june] \<noteq> [] \<and>
   length (trimmedPrices [example_processed 440000 1 sold_june,
     example_processed 435000 1 sold_june]) mod 2 = 0 \<and>
   mid [example_processed 440000 1 sold_june, example_processed 435000 1 sold_june] - 1 = 0 \<and>
   calculateMarketValue [example_processed 440000 1 sold_june,
     example_processed 435000 1 sold_june, example_processed 455000 1 sold_june] = Num 440000 \<and>
   calculateMarketValue [example_processed 440000 1 sold_june,
     example_processed 435000 1 sold_june] = Num 437500"
proof -
  let ?a = "example_processed 440000 1 sold_june" and ?b = "example_processed 435000 1 sold_june"
  let ?c = "example_processed 455000 1 sold_june"
  have t3: "length (trimmedPrices [?a, ?b, ?c]) = 3" and t2: "length (trimmedPrices [?a, ?b]) = 2"
    by (simp_all add: length_trimmedPrices)
  have n3: "[?a, ?b, ?c] \<noteq> []" and n2: "[?a, ?b] \<noteq> []"
    by simp_all
  have v3: "calculateMarketValue [?a, ?b, ?c] = Num 440000"
    and v2: "calculateMarketValue [?a, ?b] = Num 437500"
    by (simp_all add: calculateMarketValue_median median_def trimmedPrices_eq adjustedPrices_def
          example_processed_def example_comparable_def)
  from calculateMarketValue_in_bounds [OF n3] calculateMarketValue_in_bounds [OF n2] t3 t2 v3 v2
  show ?thesis
    by (simp add: mid_eq)
qed

end
